theory Spec2Isabelle
  imports Main
begin

section \<open>Include-expansion preprocessor (src/main.cpp)\<close>

text \<open>
  The program flattens a source file: every line holding an include directive is replaced
  by the recursively expanded content of the file it names. The embedding follows
  \<^verbatim>\<open>ProcessInclude\<close> and \<^verbatim>\<open>Preprocess\<close> of \<^verbatim>\<open>src/main.cpp\<close>.

  Strings are byte lists, as \<^verbatim>\<open>std::string\<close>. A path is its string
  (\<^verbatim>\<open>path::string()\<close> on a POSIX system gives back the characters the path was built from).
\<close>

type_synonym path = string

subsection \<open>Characters and number output\<close>

definition newline :: char where
  "newline = CHR 0x0A"

definition dquote :: char where
  "dquote = CHR 0x22"

text \<open>The class \<^verbatim>\<open>\s\<close> of the regular expressions, in the classic locale: space, tab, line feed,
  vertical tab, form feed, carriage return.\<close>

definition is_space :: "char \<Rightarrow> bool" where
  "is_space c = (c = CHR 0x20 \<or> c = CHR 0x09 \<or> c = CHR 0x0A \<or> c = CHR 0x0B \<or> c = CHR 0x0C \<or> c = CHR 0x0D)"

definition digit_char :: "nat \<Rightarrow> char" where
  "digit_char d = char_of (48 + d)"

function show_nat :: "nat \<Rightarrow> string" where
  "show_nat n = (if n < 10 then [digit_char n] else show_nat (n div 10) @ [digit_char (n mod 10)])"
  by pat_completeness auto
termination
  by (relation "measure (\<lambda>n. n)") auto

declare show_nat.simps [simp del]

text \<open>\<^verbatim>\<open>cout << source_line\<close> for an \<^verbatim>\<open>int\<close>: decimal, with a minus sign when negative.
  Line counters are modelled as unbounded integers: a file is taken to have fewer than
  \<open>2^31\<close> lines, so that \<^verbatim>\<open>line_number++\<close> never overflows.\<close>

definition show_int :: "int \<Rightarrow> string" where
  "show_int i = (if i < 0 then CHR ''-'' # show_nat (nat (- i)) else show_nat (nat i))"

subsection \<open>The two directive patterns\<close>

text \<open>
  \<^verbatim>\<open>include_local  = \s*#\s*include\s*"([^"]*)"\s*\<close> and
  \<^verbatim>\<open>include_global = \s*#\s*include\s*<([^>]*)>\s*\<close> (lines 49 and 51).
  Neither pattern has a choice point: a \<^verbatim>\<open>\s*\<close> is followed by a character that is not a
  space, and the name class excludes the closing delimiter. So an attempt to match at a
  given position is a deterministic scan. \<open>match_include_at opn cls s\<close> matches the pattern
  with delimiters \<open>opn\<close>, \<open>cls\<close> at the start of \<open>s\<close> and returns the captured name and the
  text left after the match.
\<close>

fun strip_prefix :: "string \<Rightarrow> string \<Rightarrow> string option" where
  "strip_prefix [] s = Some s"
| "strip_prefix (p # ps) [] = None"
| "strip_prefix (p # ps) (c # cs) = (if p = c then strip_prefix ps cs else None)"

definition skip_space :: "string \<Rightarrow> string" where
  "skip_space s = dropWhile is_space s"

definition match_include_at :: "char \<Rightarrow> char \<Rightarrow> string \<Rightarrow> (string \<times> string) option" where
  "match_include_at opn cls s =
     (case strip_prefix ''#'' (skip_space s) of
        None \<Rightarrow> None
      | Some s1 \<Rightarrow>
     (case strip_prefix ''include'' (skip_space s1) of
        None \<Rightarrow> None
      | Some s2 \<Rightarrow>
     (case strip_prefix [opn] (skip_space s2) of
        None \<Rightarrow> None
      | Some s3 \<Rightarrow>
     (case strip_prefix [cls] (dropWhile (\<lambda>c. c \<noteq> cls) s3) of
        None \<Rightarrow> None
      | Some s4 \<Rightarrow> Some (takeWhile (\<lambda>c. c \<noteq> cls) s3, skip_space s4)))))"

definition include_local :: "string \<Rightarrow> (string \<times> string) option" where
  "include_local = match_include_at dquote dquote"

definition include_global :: "string \<Rightarrow> (string \<times> string) option" where
  "include_global = match_include_at (CHR ''<'') (CHR ''>'')"

text \<open>\<^verbatim>\<open>regex_search(line, match, re)\<close> followed by \<^verbatim>\<open>match[1].str()\<close>: the pattern is tried at
  every position of the line from the left, the first position where it matches wins, and
  nothing is required of the text before or after the match.\<close>

fun regex_search :: "(string \<Rightarrow> (string \<times> string) option) \<Rightarrow> string \<Rightarrow> string option" where
  "regex_search re [] = map_option fst (re [])"
| "regex_search re (c # cs) =
     (case re (c # cs) of
        Some (name, rest) \<Rightarrow> Some name
      | None \<Rightarrow> regex_search re cs)"

text \<open>The if / else-if / else chain of the loop body (lines 63, 98, 128): the local pattern
  is searched first, the global pattern only when the local one is not found.\<close>

datatype Directive = Local string | Global string | PlainText string

definition classify :: "string \<Rightarrow> Directive" where
  "classify line =
     (case regex_search include_local line of
        Some name \<Rightarrow> Local name
      | None \<Rightarrow>
     (case regex_search include_global line of
        Some name \<Rightarrow> Global name
      | None \<Rightarrow> PlainText line))"

text \<open>The anchored reading of the same patterns, as the specification words it
  (\<^verbatim>\<open>^ ... $\<close>): the match starts at the first character and nothing is left after it.\<close>

definition spec_anchored :: "(string \<Rightarrow> (string \<times> string) option) \<Rightarrow> string \<Rightarrow> string option" where
  "spec_anchored re line =
     (case re line of
        Some (name, rest) \<Rightarrow> if rest = [] then Some name else None
      | None \<Rightarrow> None)"

definition spec_classify :: "string \<Rightarrow> Directive" where
  "spec_classify line =
     (case spec_anchored include_local line of
        Some name \<Rightarrow> Local name
      | None \<Rightarrow>
     (case spec_anchored include_global line of
        Some name \<Rightarrow> Global name
      | None \<Rightarrow> PlainText line))"

subsection \<open>The file system and the streams\<close>

text \<open>
  What the program takes from \<^verbatim>\<open>std::filesystem\<close> and the file streams is a parameter:
  \<open>fs_exists\<close> is \<^verbatim>\<open>filesystem::exists\<close>, \<open>fs_open p\<close> is the content read through an
  \<^verbatim>\<open>ifstream\<close> on \<open>p\<close> (\<open>None\<close> when \<^verbatim>\<open>is_open()\<close> is false), \<open>fs_can_write p\<close> says whether an
  \<^verbatim>\<open>ofstream\<close> on \<open>p\<close> opens, and \<open>parent_path\<close>, \<open>path_append\<close> (\<^verbatim>\<open>operator/\<close>) and
  \<open>filename\<close> are the path operations. \<open>same_file p q\<close> says that two different paths
  name one file (what \<^verbatim>\<open>filesystem::equivalent\<close> tests): the program never asks, but what
  its output stream does to a file shows under every name of that file. For a call of
  \<^verbatim>\<open>ProcessInclude\<close> the record is the file system as the call reads it; how the output file
  enters it is the driver's matter, below. \<^verbatim>\<open>filesystem::exists\<close> is taken to answer, not to
  throw.
\<close>

record env =
  fs_exists :: "path \<Rightarrow> bool"
  fs_open :: "path \<Rightarrow> string option"
  fs_can_write :: "path \<Rightarrow> bool"
  parent_path :: "path \<Rightarrow> path"
  path_append :: "path \<Rightarrow> path \<Rightarrow> path"
  filename :: "path \<Rightarrow> path"
  same_file :: "path \<Rightarrow> path \<Rightarrow> bool"

text \<open>The two streams a call of \<^verbatim>\<open>ProcessInclude\<close> writes to: the shared \<^verbatim>\<open>ofstream &output\<close>
  and the standard output.\<close>

record streams =
  out :: string
  cout :: string

text \<open>\<^verbatim>\<open>while (getline(input, line))\<close>: a line is the text up to the next line feed, which is
  consumed and not stored; at the end of the content nothing is extracted and the loop
  ends. A last line without a line feed is still a line.\<close>

function getlines :: "string \<Rightarrow> string list" where
  "getlines s =
     (if s = [] then []
      else takeWhile (\<lambda>c. c \<noteq> newline) s # getlines (drop 1 (dropWhile (\<lambda>c. c \<noteq> newline) s)))"
  by pat_completeness auto
termination
proof (relation "measure length")
  show "wf (measure length)" by simp
next
  fix s :: string
  assume "s \<noteq> []"
  have "length (dropWhile (\<lambda>c. c \<noteq> newline) s) \<le> length s"
    by (rule length_dropWhile_le)
  moreover from \<open>s \<noteq> []\<close> have "0 < length s"
    by simp
  ultimately have "length (drop 1 (dropWhile (\<lambda>c. c \<noteq> newline) s)) < length s"
    unfolding length_drop by arith
  then show "(drop 1 (dropWhile (\<lambda>c. c \<noteq> newline) s), s) \<in> measure length" by simp
qed

declare getlines.simps [simp del]

definition diagnostic :: "string \<Rightarrow> string \<Rightarrow> int \<Rightarrow> string" where
  "diagnostic name file line =
     ''unknown include file '' @ name @ '' at file '' @ file @ '' at line '' @ show_int line @ [newline]"

subsection \<open>Resolution of a directive\<close>

text \<open>The loop over \<^verbatim>\<open>include_dirs\<close> (lines 73-79 and 104-110): the first directory whose
  candidate exists.\<close>

fun find_in_dirs :: "env \<Rightarrow> path list \<Rightarrow> path \<Rightarrow> path option" where
  "find_in_dirs E [] include_path = None"
| "find_in_dirs E (dir # dirs) include_path =
     (if fs_exists E (path_append E dir include_path) then Some (path_append E dir include_path)
      else find_in_dirs E dirs include_path)"

text \<open>Lines 64-89: the candidate relative to the directory of the current file, and the
  directories only when it does not exist.\<close>

definition resolve_local :: "env \<Rightarrow> path \<Rightarrow> path list \<Rightarrow> path \<Rightarrow> path option" where
  "resolve_local E current_file include_dirs include_path =
     (let full_path = path_append E (parent_path E current_file) include_path in
      if \<not> fs_exists E full_path then find_in_dirs E include_dirs include_path
      else Some full_path)"

text \<open>Lines 99-119: the directories only.\<close>

definition resolve_global :: "env \<Rightarrow> path \<Rightarrow> path list \<Rightarrow> path \<Rightarrow> path option" where
  "resolve_global E current_file include_dirs include_path = find_in_dirs E include_dirs include_path"

fun resolve :: "env \<Rightarrow> path \<Rightarrow> path list \<Rightarrow> Directive \<Rightarrow> path option" where
  "resolve E current_file include_dirs (Local name) = resolve_local E current_file include_dirs name"
| "resolve E current_file include_dirs (Global name) = resolve_global E current_file include_dirs name"
| "resolve E current_file include_dirs (PlainText line) = None"

text \<open>The name a directive carries (\<^verbatim>\<open>match[1].str()\<close>).\<close>

fun include_path :: "Directive \<Rightarrow> string" where
  "include_path (Local name) = name"
| "include_path (Global name) = name"
| "include_path (PlainText line) = line"

subsection \<open>The recursive expander\<close>

text \<open>
  \<^verbatim>\<open>ProcessInclude\<close> has no guard against a file that includes itself, so it need not
  return. The model takes the depth of recursion it may use as fuel: \<open>None\<close> is a run that
  needs more. \<open>process_lines\<close> is the \<^verbatim>\<open>while\<close> loop over the lines still to read, with the
  value of \<^verbatim>\<open>line_number\<close> before the next line.
\<close>

fun ProcessInclude :: "nat \<Rightarrow> env \<Rightarrow> path \<Rightarrow> path list \<Rightarrow> path \<Rightarrow> int \<Rightarrow> streams \<Rightarrow> (bool \<times> streams) option"
  and process_lines :: "nat \<Rightarrow> env \<Rightarrow> path \<Rightarrow> path list \<Rightarrow> string list \<Rightarrow> int \<Rightarrow> streams \<Rightarrow> (bool \<times> streams) option"
where
  "ProcessInclude 0 E current_file include_dirs source_file source_line st = None"
| "ProcessInclude (Suc fuel) E current_file include_dirs source_file source_line st =
     (case fs_open E current_file of
        None \<Rightarrow>
          Some (False,
            if source_file \<noteq> []
            then st\<lparr>cout := cout st @ diagnostic (filename E current_file) source_file source_line\<rparr>
            else st)
      | Some content \<Rightarrow> process_lines fuel E current_file include_dirs (getlines content) 0 st)"
| "process_lines fuel E current_file include_dirs [] line_number st = Some (True, st)"
| "process_lines fuel E current_file include_dirs (line # rest) line_number st =
     (case classify line of
        PlainText text \<Rightarrow>
          process_lines fuel E current_file include_dirs rest (line_number + 1)
            (st\<lparr>out := out st @ line @ [newline]\<rparr>)
      | d \<Rightarrow>
         (case resolve E current_file include_dirs d of
            None \<Rightarrow>
              Some (False,
                st\<lparr>cout := cout st @ diagnostic (include_path d) current_file (line_number + 1)\<rparr>)
          | Some full_path \<Rightarrow>
             (case ProcessInclude fuel E full_path include_dirs current_file (line_number + 1) st of
                None \<Rightarrow> None
              | Some (ok, st') \<Rightarrow>
                  if ok then process_lines fuel E current_file include_dirs rest (line_number + 1) st'
                  else Some (False, st'))))"

subsection \<open>The driver\<close>

text \<open>The two messages of \<^verbatim>\<open>Preprocess\<close> (lines 150 and 157) are Russian text; the bytes are those
  of the UTF-8 source file.\<close>

definition err_input :: string where
  "err_input = map char_of
     [208, 158, 209, 136, 208, 184, 208, 177, 208, 186, 208, 176, 58, 32, 208, 157, 208, 181, 32,
      209, 131, 208, 180, 208, 176, 208, 187, 208, 190, 209, 129, 209, 140, 32, 208, 190, 209, 130,
      208, 186, 209, 128, 209, 139, 209, 130, 209, 140, 32, 208, 178, 209, 133, 208, 190, 208, 180,
      208, 189, 208, 190, 208, 185, 32, 209, 132, 208, 176, 208, 185, 208, 187, 58, 32 :: nat]"

definition err_output :: string where
  "err_output = map char_of
     [208, 158, 209, 136, 208, 184, 208, 177, 208, 186, 208, 176, 58, 32, 208, 157, 208, 181, 32,
      209, 131, 208, 180, 208, 176, 208, 187, 208, 190, 209, 129, 209, 140, 32, 208, 190, 209, 130,
      208, 186, 209, 128, 209, 139, 209, 130, 209, 140, 32, 208, 178, 209, 139, 209, 133, 208, 190,
      208, 180, 208, 189, 208, 190, 208, 185, 32, 209, 132, 208, 176, 208, 185, 208, 187, 58, 32 :: nat]"

text \<open>What a run leaves behind: the standard output and the content of the output file
  (\<open>None\<close> when there is no such file).\<close>

record world =
  console :: string
  out_file :: "string option"

text \<open>
  Opening the \<^verbatim>\<open>ofstream\<close> (line 155) creates the output file or empties it, under every
  name the file has. A file that was there and could not be read still cannot; a file
  that is created can be read.
\<close>

definition names_file :: "env \<Rightarrow> path \<Rightarrow> path \<Rightarrow> bool" where
  "names_file E p q = (q = p \<or> same_file E q p)"

definition truncated :: "env \<Rightarrow> path \<Rightarrow> env" where
  "truncated E p =
     E\<lparr>fs_exists := (\<lambda>q. names_file E p q \<or> fs_exists E q),
       fs_open := (\<lambda>q. if names_file E p q
                        then (if fs_exists E q \<and> fs_open E q = None then None else Some [])
                        else fs_open E q)\<rparr>"

text \<open>
  Every line goes to the output file at once (\<^verbatim>\<open>endl\<close> flushes, line 129). A run that opens
  its own output file for reading after it has written to it never reaches the end of
  that file: each line it reads there is a line it wrote, a plain line, and it appends it
  again. \<open>reads_back\<close> follows the run of \<^verbatim>\<open>ProcessInclude\<close> and says whether it opens the
  file \<open>output_file\<close> at a moment when \<open>out\<close> is not empty. An output file that is opened
  while still empty is an empty file, as the truncated file system has it.
\<close>

fun reads_back :: "nat \<Rightarrow> env \<Rightarrow> path \<Rightarrow> path \<Rightarrow> path list \<Rightarrow> streams \<Rightarrow> bool"
  and reads_back_lines :: "nat \<Rightarrow> env \<Rightarrow> path \<Rightarrow> path \<Rightarrow> path list \<Rightarrow> string list \<Rightarrow> int \<Rightarrow> streams \<Rightarrow> bool"
where
  "reads_back 0 E output_file current_file include_dirs st = False"
| "reads_back (Suc fuel) E output_file current_file include_dirs st =
     (case fs_open E current_file of
        None \<Rightarrow> False
      | Some content \<Rightarrow>
          (names_file E output_file current_file \<and> out st \<noteq> []) \<or>
          reads_back_lines fuel E output_file current_file include_dirs (getlines content) 0 st)"
| "reads_back_lines fuel E output_file current_file include_dirs [] line_number st = False"
| "reads_back_lines fuel E output_file current_file include_dirs (line # rest) line_number st =
     (case classify line of
        PlainText text \<Rightarrow>
          reads_back_lines fuel E output_file current_file include_dirs rest (line_number + 1)
            (st\<lparr>out := out st @ line @ [newline]\<rparr>)
      | d \<Rightarrow>
         (case resolve E current_file include_dirs d of
            None \<Rightarrow> False
          | Some full_path \<Rightarrow>
              reads_back fuel E output_file full_path include_dirs st \<or>
              (case ProcessInclude fuel E full_path include_dirs current_file (line_number + 1) st of
                 None \<Rightarrow> False
               | Some (ok, st') \<Rightarrow>
                   ok \<and> reads_back_lines fuel E output_file current_file include_dirs rest
                          (line_number + 1) st')))"

text \<open>
  \<^verbatim>\<open>Preprocess\<close> (lines 145-163). The input file is opened first, then the output file; the
  expander then reads the file system in which the output file has been emptied, so that
  with the output file named as the input file it finds an empty input. A run that reads
  its output back has no result, like a run that needs more fuel.
\<close>

definition Preprocess :: "nat \<Rightarrow> env \<Rightarrow> path \<Rightarrow> path \<Rightarrow> path list \<Rightarrow> world \<Rightarrow> (bool \<times> world) option" where
  "Preprocess fuel E input_file output_file include_dirs w =
     (case fs_open E input_file of
        None \<Rightarrow> Some (False, w\<lparr>console := console w @ err_input @ input_file @ [newline]\<rparr>)
      | Some content \<Rightarrow>
          if \<not> fs_can_write E output_file
          then Some (False, w\<lparr>console := console w @ err_output @ output_file @ [newline]\<rparr>)
          else if reads_back fuel (truncated E output_file) output_file input_file include_dirs
                    \<lparr>out = [], cout = console w\<rparr>
          then None
          else
            (case ProcessInclude fuel (truncated E output_file) input_file include_dirs [] 0
                    \<lparr>out = [], cout = console w\<rparr> of
               None \<Rightarrow> None
             | Some (ok, st) \<Rightarrow> Some (ok, \<lparr>console = cout st, out_file = Some (out st)\<rparr>)))"

subsection \<open>A concrete file system\<close>

text \<open>Paths in the generic format with \<^verbatim>\<open>/\<close> as the separator: \<^verbatim>\<open>filename\<close> is the text
  after the last separator, \<^verbatim>\<open>parent_path\<close> the text before the separators that end the
  directory part (the root itself for a name directly under the root), and \<^verbatim>\<open>p / q\<close> joins
  with one separator unless \<open>p\<close> is empty, \<open>p\<close> ends with a separator or \<open>q\<close> is absolute.\<close>

definition posix_filename :: "path \<Rightarrow> path" where
  "posix_filename p = rev (takeWhile (\<lambda>c. c \<noteq> CHR ''/'') (rev p))"

definition posix_parent_path :: "path \<Rightarrow> path" where
  "posix_parent_path p =
     (let d = rev (dropWhile (\<lambda>c. c = CHR ''/'') (dropWhile (\<lambda>c. c \<noteq> CHR ''/'') (rev p)))
      in if d = [] \<and> p \<noteq> [] \<and> hd p = CHR ''/'' then ''/'' else d)"

definition posix_append :: "path \<Rightarrow> path \<Rightarrow> path" where
  "posix_append p q =
     (if q \<noteq> [] \<and> hd q = CHR ''/'' then q
      else if p = [] then q
      else if last p = CHR ''/'' then p @ q
      else p @ ''/'' @ q)"

text \<open>A file system given by its regular files (path and content) and its directories, every
  path written in one way and no file under two names. Every regular file can be read. A
  directory exists; an \<^verbatim>\<open>ifstream\<close> on it opens and gives no line, and an \<^verbatim>\<open>ofstream\<close> on
  it does not open. A file can be written where its directory is there (the working
  directory, for a path without directory part).\<close>

definition mk_env :: "(path \<times> string) list \<Rightarrow> path list \<Rightarrow> env" where
  "mk_env files dirs =
     \<lparr>fs_exists = (\<lambda>p. p \<in> set dirs \<or> map_of files p \<noteq> None),
      fs_open = (\<lambda>p. case map_of files p of
                        Some content \<Rightarrow> Some content
                      | None \<Rightarrow> if p \<in> set dirs then Some [] else None),
      fs_can_write = (\<lambda>p. p \<noteq> [] \<and> p \<notin> set dirs \<and>
                           (posix_parent_path p = [] \<or> posix_parent_path p \<in> set dirs)),
      parent_path = posix_parent_path,
      path_append = posix_append,
      filename = posix_filename,
      same_file = (\<lambda>p q. False)\<rparr>"

text \<open>Files that are there and that the process may not read (no read permission): they
  exist, and a stream on them does not open.\<close>

definition deny_read :: "path list \<Rightarrow> env \<Rightarrow> env" where
  "deny_read ps E =
     E\<lparr>fs_exists := (\<lambda>p. p \<in> set ps \<or> fs_exists E p),
       fs_open := (\<lambda>p. if p \<in> set ps then None else fs_open E p)\<rparr>"

text \<open>The tree that \<^verbatim>\<open>Test()\<close> builds (lines 184-237).\<close>

definition test_files :: "(path \<times> string) list" where
  "test_files =
    [(''sources/a.cpp'',
        ''// this comment before include'' @ [newline] @
        ''#include '' @ [dquote] @ ''dir1/b.h'' @ [dquote, newline] @
        ''// text between b.h and c.h'' @ [newline] @
        ''#include '' @ [dquote] @ ''dir1/d.h'' @ [dquote, newline] @
        [newline] @
        ''int SayHello() {'' @ [newline] @
        ''    cout << '' @ [dquote] @ ''hello, world!'' @ [dquote] @ '' << endl;'' @ [newline] @
        ''#   include<dummy.txt>'' @ [newline] @
        ''}'' @ [newline]),
     (''sources/dir1/b.h'',
        ''// text from b.h before include'' @ [newline] @
        ''#include '' @ [dquote] @ ''subdir/c.h'' @ [dquote, newline] @
        ''// text from b.h after include''),
     (''sources/dir1/subdir/c.h'',
        ''// text from c.h before include'' @ [newline] @
        ''#include <std1.h>'' @ [newline] @
        ''// text from c.h after include'' @ [newline]),
     (''sources/dir1/d.h'',
        ''// text from d.h before include'' @ [newline] @
        ''#include '' @ [dquote] @ ''lib/std2.h'' @ [dquote, newline] @
        ''// text from d.h after include'' @ [newline]),
     (''sources/include1/std1.h'', ''// std1'' @ [newline]),
     (''sources/include2/lib/std2.h'', ''// std2'' @ [newline])]"

definition test_dirs :: "path list" where
  "test_dirs =
    [''sources'', ''sources/include2'', ''sources/include2/lib'', ''sources/include1'',
     ''sources/dir1'', ''sources/dir1/subdir'']"

definition test_include_dirs :: "path list" where
  "test_include_dirs = [''sources/include1'', ''sources/include2'']"

definition test_env :: env where
  "test_env = mk_env test_files test_dirs"

text \<open>A small tree where a name exists both beside the including file and in a search
  directory (\<^verbatim>\<open>x.h\<close>), and another only beside the including file (\<^verbatim>\<open>only.h\<close>).\<close>

definition shadow_files :: "(path \<times> string) list" where
  "shadow_files =
    [(''src/a.cpp'', ''#include <only.h>'' @ [newline]),
     (''src/x.h'', ''local x'' @ [newline]),
     (''src/only.h'', ''only'' @ [newline]),
     (''inc/x.h'', ''global x'' @ [newline])]"

definition shadow_env :: env where
  "shadow_env = mk_env shadow_files [''src'', ''inc'']"


text \<open>
  A failure at some depth, in the words of the specification: the call on \<open>file\<close> meets a
  directive that fails, in \<open>file\<close> itself or in a file that \<open>file\<close> includes, at any
  depth. The deepest level is a file that cannot be opened, or a directive whose name is
  found nowhere; above it are the directives that led there. At each level the lines
  before the directive were expanded, and the lines after it are any lines.
  \<open>fails_at_depth E dirs fuel file referencing_file referencing_line st st'\<close> gives the
  streams \<open>st'\<close> that the specification expects after the failure, from the streams \<open>st\<close>
  before the call.
\<close>

inductive fails_at_depth ::
  "env \<Rightarrow> path list \<Rightarrow> nat \<Rightarrow> path \<Rightarrow> path \<Rightarrow> int \<Rightarrow> streams \<Rightarrow> streams \<Rightarrow> bool"
  for E :: env and include_dirs :: "path list"
where
  unopenable:
    "fs_open E file = None \<Longrightarrow> referencing_file \<noteq> [] \<Longrightarrow>
     fails_at_depth E include_dirs (Suc fuel) file referencing_file referencing_line st
       (st\<lparr>cout := cout st @ diagnostic (filename E file) referencing_file referencing_line\<rparr>)"
| unresolved:
    "fs_open E file = Some content \<Longrightarrow> getlines content = pre @ line # post \<Longrightarrow>
     process_lines fuel E file include_dirs pre 0 st = Some (True, st1) \<Longrightarrow>
     classify line \<noteq> PlainText line \<Longrightarrow>
     resolve E file include_dirs (classify line) = None \<Longrightarrow>
     fails_at_depth E include_dirs (Suc fuel) file referencing_file referencing_line st
       (st1\<lparr>cout := cout st1 @
                diagnostic (include_path (classify line)) file (int (length pre) + 1)\<rparr>)"
| enclosing:
    "fs_open E file = Some content \<Longrightarrow> getlines content = pre @ line # post \<Longrightarrow>
     process_lines fuel E file include_dirs pre 0 st = Some (True, st1) \<Longrightarrow>
     resolve E file include_dirs (classify line) = Some full_path \<Longrightarrow>
     fails_at_depth E include_dirs fuel full_path file (int (length pre) + 1) st1 st' \<Longrightarrow>
     fails_at_depth E include_dirs (Suc fuel) file referencing_file referencing_line st st'"


text \<open>A tree in which a failure lies two files deep, and one with a header that is there and
  may not be read.\<close>

definition chain_files :: "(path \<times> string) list" where
  "chain_files =
    [(''top.cpp'',
        ''top line'' @ [newline] @
        ''#include '' @ [dquote] @ ''mid.h'' @ [dquote, newline] @
        ''top line never reached'' @ [newline]),
     (''mid.h'',
        ''mid line'' @ [newline] @
        ''#include <gone.h>'' @ [newline] @
        ''mid line never reached'' @ [newline]),
     (''user.cpp'',
        ''user line'' @ [newline] @
        ''#include '' @ [dquote] @ ''locked.h'' @ [dquote, newline] @
        ''user line never reached'' @ [newline])]"

definition chain_env :: env where
  "chain_env = deny_read [''locked.h''] (mk_env chain_files [''inc''])"

text \<open>A file whose lines are all plain text for the specification, one of them a comment
  that quotes a directive.\<close>

definition commented_files :: "(path \<times> string) list" where
  "commented_files =
    [(''a.cpp'',
        ''int x;'' @ [newline] @
        ''// #include '' @ [dquote] @ ''x.h'' @ [dquote, newline] @
        ''int y;'' @ [newline])]"

definition commented_env :: env where
  "commented_env = mk_env commented_files []"

text \<open>Streams with nothing written, and a stream state extended by what a call wrote.\<close>

definition no_output :: streams where
  "no_output = \<lparr>out = [], cout = []\<rparr>"

definition append_streams :: "streams \<Rightarrow> streams \<Rightarrow> streams" where
  "append_streams st d = \<lparr>out = out st @ out d, cout = cout st @ cout d\<rparr>"

text \<open>The result of a call on streams that already hold \<open>st\<close>, from its result on empty streams.\<close>

definition framed :: "streams \<Rightarrow> (bool \<times> streams) option \<Rightarrow> (bool \<times> streams) option" where
  "framed st r = map_option (\<lambda>(ok, d). (ok, append_streams st d)) r"

definition test_out :: string where
  "test_out =
     ''// this comment before include'' @ [newline] @
     ''// text from b.h before include'' @ [newline] @
     ''// text from c.h before include'' @ [newline] @
     ''// std1'' @ [newline] @
     ''// text from c.h after include'' @ [newline] @
     ''// text from b.h after include'' @ [newline] @
     ''// text between b.h and c.h'' @ [newline] @
     ''// text from d.h before include'' @ [newline] @
     ''// std2'' @ [newline] @
     ''// text from d.h after include'' @ [newline] @
     [newline] @
     ''int SayHello() {'' @ [newline] @
     ''    cout << '' @ [dquote] @ ''hello, world!'' @ [dquote] @ '' << endl;'' @ [newline]"

section \<open>Properties\<close>

subsection \<open>One step of the loop\<close>

lemma classify_PlainText: "classify line = PlainText t \<Longrightarrow> t = line"
  by (auto simp: classify_def split: option.splits)

lemma process_lines_plain:
  "classify line = PlainText t \<Longrightarrow>
   process_lines n E cur dirs (line # rest) k st =
     process_lines n E cur dirs rest (k + 1) (st\<lparr>out := out st @ line @ [newline]\<rparr>)"
  by simp

lemma resolve_Some_not_plain: "resolve E cur dirs d = Some p \<Longrightarrow> d \<noteq> PlainText t"
  by (cases d) simp_all

lemma process_lines_directive:
  "resolve E cur dirs (classify line) = Some p \<Longrightarrow>
   process_lines n E cur dirs (line # rest) k st =
     (case ProcessInclude n E p dirs cur (k + 1) st of
        None \<Rightarrow> None
      | Some (ok, st') \<Rightarrow>
          if ok then process_lines n E cur dirs rest (k + 1) st' else Some (False, st'))"
  by (cases "classify line") simp_all

lemma process_lines_unresolved:
  "classify line \<noteq> PlainText line \<Longrightarrow> resolve E cur dirs (classify line) = None \<Longrightarrow>
   process_lines n E cur dirs (line # rest) k st =
     Some (False, st\<lparr>cout := cout st @ diagnostic (include_path (classify line)) cur (k + 1)\<rparr>)"
  by (cases "classify line") (auto dest: classify_PlainText)

lemma append_streams_no_output [simp]: "append_streams st no_output = st"
  by (simp add: append_streams_def no_output_def)

lemma append_streams_assoc: "append_streams (append_streams a b) c = append_streams a (append_streams b c)"
  by (simp add: append_streams_def)

lemma append_streams_out_upd: "(append_streams st d)\<lparr>out := out (append_streams st d) @ x\<rparr> = append_streams st (d\<lparr>out := out d @ x\<rparr>)"
  by (simp add: append_streams_def)

lemma append_streams_cout_upd: "(append_streams st d)\<lparr>cout := cout (append_streams st d) @ x\<rparr> = append_streams st (d\<lparr>cout := cout d @ x\<rparr>)"
  by (simp add: append_streams_def)

lemma process_lines_frame_step:
  assumes A: "\<And>p src ln st. ProcessInclude n E p dirs src ln st = framed st (ProcessInclude n E p dirs src ln no_output)"
  shows "process_lines n E cur dirs ls k (append_streams st d) = framed st (process_lines n E cur dirs ls k d)"
proof (induction ls arbitrary: k d)
  case Nil
  show ?case by (simp add: framed_def)
next
  case (Cons line rest)
  show ?case
  proof (cases "classify line")
    case (PlainText t)
    then show ?thesis
      using Cons.IH [of "k + 1" "d\<lparr>out := out d @ line @ [newline]\<rparr>"]
      by (simp add: append_streams_out_upd)
  next
    case (Local name)
    show ?thesis
    proof (cases "resolve E cur dirs (Local name)")
      case None
      with Local show ?thesis by (simp add: framed_def append_streams_cout_upd)
    next
      case (Some p)
      have e1: "ProcessInclude n E p dirs cur (k + 1) (append_streams st d) = framed (append_streams st d) (ProcessInclude n E p dirs cur (k + 1) no_output)"
        by (rule A)
      have e2: "ProcessInclude n E p dirs cur (k + 1) d = framed d (ProcessInclude n E p dirs cur (k + 1) no_output)"
        by (rule A)
      show ?thesis
      using Local Some Cons.IH
        by (auto simp: e1 e2 framed_def append_streams_assoc split: option.splits)
    qed
  next
    case (Global name)
    show ?thesis
    proof (cases "resolve E cur dirs (Global name)")
      case None
      with Global show ?thesis by (simp add: framed_def append_streams_cout_upd)
    next
      case (Some p)
      have e1: "ProcessInclude n E p dirs cur (k + 1) (append_streams st d) = framed (append_streams st d) (ProcessInclude n E p dirs cur (k + 1) no_output)"
        by (rule A)
      have e2: "ProcessInclude n E p dirs cur (k + 1) d = framed d (ProcessInclude n E p dirs cur (k + 1) no_output)"
        by (rule A)
      show ?thesis
      using Global Some Cons.IH
        by (auto simp: e1 e2 framed_def append_streams_assoc split: option.splits)
    qed
  qed
qed

lemma ProcessInclude_frame:
  "ProcessInclude n E p dirs src ln st = framed st (ProcessInclude n E p dirs src ln no_output)"
proof (induction n arbitrary: p src ln st)
  case 0
  show ?case by (simp add: framed_def)
next
  case (Suc n)
  have B: "process_lines n E p dirs ls 0 st = framed st (process_lines n E p dirs ls 0 no_output)" for ls
    using process_lines_frame_step [of n E dirs p ls 0 st no_output, OF Suc.IH] by simp
  show ?case
  proof (cases "fs_open E p")
    case None
    then show ?thesis
      by (simp add: framed_def append_streams_def no_output_def)
  next
    case (Some content)
    then show ?thesis
      using B [of "getlines content"] by simp
  qed
qed

lemma process_lines_frame:
  "process_lines n E cur dirs ls k st = framed st (process_lines n E cur dirs ls k no_output)"
  using process_lines_frame_step [of n E dirs cur ls k st no_output, OF ProcessInclude_frame]
  by simp

subsection \<open>Reading lines and copying them\<close>

lemma getlines_Nil [simp]: "getlines [] = []"
  by (simp add: getlines.simps)

lemma getlines_concat:
  "concat (map (\<lambda>l. l @ [newline]) (getlines s)) =
     (if s = [] \<or> last s = newline then s else s @ [newline])"
proof (induction s rule: getlines.induct)
  case (1 s)
  show ?case
  proof (cases "s = []")
    case True
    then show ?thesis by simp
  next
    case False
    let ?P = "\<lambda>c. c \<noteq> newline"
    have split: "s = takeWhile ?P s @ dropWhile ?P s" by simp
    have unfold: "getlines s = takeWhile ?P s # getlines (drop 1 (dropWhile ?P s))"
      using False by (subst getlines.simps) simp
    show ?thesis
    proof (cases "dropWhile ?P s")
      case Nil
      then have all: "\<forall>c\<in>set s. c \<noteq> newline"
        by (simp add: dropWhile_eq_Nil_conv)
      then have tw: "takeWhile ?P s = s" by (simp add: takeWhile_eq_all_conv)
      from all False have "last s \<noteq> newline" using last_in_set by blast
      have "getlines s = takeWhile ?P s # getlines (drop 1 [])"
        using unfold unfolding Nil .
      then have "getlines s = [s]" unfolding tw by simp
      with \<open>last s \<noteq> newline\<close> False show ?thesis by simp
    next
      case (Cons c r)
      then have c: "c = newline" using hd_dropWhile [of ?P s] by fastforce
      have s_eq: "s = takeWhile ?P s @ newline # r" using split Cons c by simp
      have IH: "concat (map (\<lambda>l. l @ [newline]) (getlines r)) =
                  (if r = [] \<or> last r = newline then r else r @ [newline])"
        using "1.IH" [OF False] Cons by simp
      have lhs: "concat (map (\<lambda>l. l @ [newline]) (getlines s)) =
                   takeWhile ?P s @ newline # concat (map (\<lambda>l. l @ [newline]) (getlines r))"
        using unfold Cons by simp
      show ?thesis
      proof (cases "r = []")
        case True
        with s_eq have "s = takeWhile ?P s @ [newline]" by simp
        then have "last s = newline" by (metis last_snoc)
        with lhs IH True s_eq False show ?thesis by simp
      next
        case r: False
        with s_eq have "last s = last r" by (metis last_append last_ConsR list.distinct(1))
        with lhs IH r s_eq False show ?thesis
          by (metis (no_types, lifting) append.assoc append_Cons)
      qed
    qed
  qed
qed

lemma process_lines_all_plain:
  "\<forall>l\<in>set ls. classify l = PlainText l \<Longrightarrow>
   process_lines n E cur dirs ls k st =
     Some (True, st\<lparr>out := out st @ concat (map (\<lambda>l. l @ [newline]) ls)\<rparr>)"
proof (induction ls arbitrary: k st)
  case Nil
  show ?case by simp
next
  case (Cons line rest)
  from Cons.prems have "classify line = PlainText line" by simp
  then have "process_lines n E cur dirs (line # rest) k st =
      process_lines n E cur dirs rest (k + 1) (st\<lparr>out := out st @ line @ [newline]\<rparr>)"
    by (rule process_lines_plain)
  also have "\<dots> = Some (True, st\<lparr>out := out st @ line @ [newline]\<rparr>
       \<lparr>out := out (st\<lparr>out := out st @ line @ [newline]\<rparr>) @ concat (map (\<lambda>l. l @ [newline]) rest)\<rparr>)"
    using Cons.prems by (intro Cons.IH) simp
  finally show ?case by simp
qed

subsection \<open>Resolution\<close>

lemma find_in_dirs_find:
  "find_in_dirs E dirs name = List.find (fs_exists E) (map (\<lambda>dir. path_append E dir name) dirs)"
  by (induction dirs) simp_all

lemma resolve_local_find:
  "resolve_local E cur dirs name =
     List.find (fs_exists E)
       (path_append E (parent_path E cur) name # map (\<lambda>dir. path_append E dir name) dirs)"
  by (simp add: resolve_local_def Let_def find_in_dirs_find)

subsection \<open>Lines after lines, and what a call appends\<close>

lemma process_lines_append:
  "process_lines n E cur dirs (pre @ rest) k st =
     (case process_lines n E cur dirs pre k st of
        None \<Rightarrow> None
      | Some (ok, st1) \<Rightarrow>
          if ok then process_lines n E cur dirs rest (k + int (length pre)) st1
          else Some (False, st1))"
proof (induction pre arbitrary: k st)
  case Nil
  show ?case by simp
next
  case (Cons line pre)
  have shift: "k + 1 + int (length pre) = k + int (length (line # pre))" by simp
  show ?case
  proof (cases "classify line")
    case (PlainText t)
    then show ?thesis
      using Cons.IH [of "k + 1"]
      by (auto simp: ac_simps split: option.splits)
  next
    case (Local name)
    then show ?thesis
      using Cons.IH [of "k + 1"]
      by (auto simp: ac_simps split: option.splits)
  next
    case (Global name)
    then show ?thesis
      using Cons.IH [of "k + 1"]
      by (auto simp: ac_simps split: option.splits)
  qed
qed

lemma ProcessInclude_out_prefix:
  "ProcessInclude n E p dirs src ln st = Some (ok, st') \<Longrightarrow>
     \<exists>d. ProcessInclude n E p dirs src ln no_output = Some (ok, d) \<and> st' = append_streams st d"
  by (subst (asm) ProcessInclude_frame) (auto simp: framed_def)

lemma process_lines_out_prefix:
  "process_lines n E cur dirs ls k st = Some (ok, st') \<Longrightarrow>
     \<exists>d. process_lines n E cur dirs ls k no_output = Some (ok, d) \<and> st' = append_streams st d"
  by (subst (asm) process_lines_frame) (auto simp: framed_def)

subsection \<open>The first failing line\<close>

lemma process_lines_single:
  "process_lines n E cur dirs (line # rest) k st =
     (case process_lines n E cur dirs [line] k st of
        None \<Rightarrow> None
      | Some (ok, st1) \<Rightarrow>
          if ok then process_lines n E cur dirs rest (k + 1) st1 else Some (False, st1))"
  using process_lines_append [of n E cur dirs "[line]" rest k st]
  by (auto simp del: process_lines.simps split: option.splits)

lemma process_lines_Cons_True:
  "process_lines n E cur dirs [line] k st = Some (True, st1) \<Longrightarrow>
   process_lines n E cur dirs (line # rest) k st = process_lines n E cur dirs rest (k + 1) st1"
  using process_lines_single [of n E cur dirs line rest k st] by (simp del: process_lines.simps)

lemma process_lines_Cons_False:
  "process_lines n E cur dirs [line] k st = Some (False, st1) \<Longrightarrow>
   process_lines n E cur dirs (line # rest) k st = Some (False, st1)"
  using process_lines_single [of n E cur dirs line rest k st] by (simp del: process_lines.simps)

lemma process_lines_plain_single:
  "classify line = PlainText t \<Longrightarrow> process_lines n E cur dirs [line] k st \<noteq> Some (False, st')"
  by simp

lemma failure_decomposition:
  "process_lines n E cur dirs ls k st = Some (False, st') \<Longrightarrow>
   \<exists>pre line post st1.
      ls = pre @ line # post \<and>
      process_lines n E cur dirs pre k st = Some (True, st1) \<and>
      classify line \<noteq> PlainText line \<and>
      process_lines n E cur dirs [line] (k + int (length pre)) st1 = Some (False, st')"
proof (induction ls arbitrary: k st)
  case Nil
  then show ?case by simp
next
  case (Cons line rest)
  show ?case
  proof (cases "process_lines n E cur dirs [line] k st")
    case None
    then have "process_lines n E cur dirs (line # rest) k st = None"
      using process_lines_single [of n E cur dirs line rest k st] by (simp del: process_lines.simps)
    with Cons.prems show ?thesis by simp
  next
    case (Some r)
    obtain ok1 st2 where r: "r = (ok1, st2)" by (cases r)
    show ?thesis
    proof (cases ok1)
      case False
      with Some r have f: "process_lines n E cur dirs [line] k st = Some (False, st2)" by simp
      from Cons.prems have "st' = st2" unfolding process_lines_Cons_False [OF f] by simp
      moreover have "classify line \<noteq> PlainText line"
        using f process_lines_plain_single by blast
      moreover have "process_lines n E cur dirs [] k st = Some (True, st)" by simp
      moreover have "k + int (length ([]::string list)) = k" by simp
      ultimately have "line # rest = [] @ line # rest \<and>
          process_lines n E cur dirs [] k st = Some (True, st) \<and>
          classify line \<noteq> PlainText line \<and>
          process_lines n E cur dirs [line] (k + int (length ([]::string list))) st = Some (False, st')"
        using f by (simp only: append_Nil simp_thms)
      then show ?thesis by blast
    next
      case True
      with Some r have t: "process_lines n E cur dirs [line] k st = Some (True, st2)" by simp
      from Cons.prems have "process_lines n E cur dirs rest (k + 1) st2 = Some (False, st')"
        unfolding process_lines_Cons_True [OF t] .
      from Cons.IH [OF this] obtain pre l post st1 where
        rest: "rest = pre @ l # post"
        and pre: "process_lines n E cur dirs pre (k + 1) st2 = Some (True, st1)"
        and l: "classify l \<noteq> PlainText l"
        and fail: "process_lines n E cur dirs [l] (k + 1 + int (length pre)) st1 = Some (False, st')"
        by blast
      have "process_lines n E cur dirs (line # pre) k st = Some (True, st1)"
        using pre unfolding process_lines_Cons_True [OF t] .
      moreover have "k + 1 + int (length pre) = k + int (length (line # pre))" by simp
      ultimately have "line # rest = (line # pre) @ l # post \<and>
          process_lines n E cur dirs (line # pre) k st = Some (True, st1) \<and>
          classify l \<noteq> PlainText l \<and>
          process_lines n E cur dirs [l] (k + int (length (line # pre))) st1 = Some (False, st')"
        using rest l fail by (simp only: append_Cons simp_thms)
      then show ?thesis by blast
    qed
  qed
qed

lemma failing_line_cases:
  assumes "process_lines n E cur dirs [line] k st = Some (False, st')"
  shows "case resolve E cur dirs (classify line) of
           None \<Rightarrow> st' = st\<lparr>cout := cout st @ diagnostic (include_path (classify line)) cur (k + 1)\<rparr>
         | Some p \<Rightarrow> ProcessInclude n E p dirs cur (k + 1) st = Some (False, st')"
  using assms by (cases "classify line") (auto split: option.splits if_splits)

subsection \<open>One diagnostic for a failure\<close>


lemma ProcessInclude_unopenable:
  assumes "fs_open E p = None" and "ProcessInclude n E p dirs src ln st = Some (ok, st')"
  shows "\<not> ok \<and> st' = (if src \<noteq> [] then st\<lparr>cout := cout st @ diagnostic (filename E p) src ln\<rparr> else st)"
  using assms by (cases n) auto



subsection \<open>Failure at any depth\<close>

lemma fails_at_depth_returns:
  "fails_at_depth E dirs fuel file src ln st st' \<Longrightarrow>
   ProcessInclude fuel E file dirs src ln st = Some (False, st') \<and> (\<exists>a. out st' = out st @ a)"
proof (induction rule: fails_at_depth.induct)
  case (unopenable f src fuel ln st)
  then show ?case by simp
next
  case (unresolved f content pre line post fuel st st1 src ln)
  have "process_lines fuel E f dirs (pre @ line # post) 0 st =
          process_lines fuel E f dirs (line # post) (0 + int (length pre)) st1"
    unfolding process_lines_append [of fuel E f dirs pre "line # post"] unresolved(3) by simp
  also have "\<dots> = Some (False, st1\<lparr>cout := cout st1 @
                diagnostic (include_path (classify line)) f (0 + int (length pre) + 1)\<rparr>)"
    by (rule process_lines_unresolved [OF unresolved(4,5)])
  finally have "ProcessInclude (Suc fuel) E f dirs src ln st =
      Some (False, st1\<lparr>cout := cout st1 @
                diagnostic (include_path (classify line)) f (int (length pre) + 1)\<rparr>)"
    using unresolved(1,2) by simp
  moreover from process_lines_out_prefix [OF unresolved(3)] have "\<exists>a. out st1 = out st @ a"
    by (auto simp: append_streams_def)
  ultimately show ?case by simp
next
  case (enclosing f content pre line post fuel st st1 full_path st' src ln)
  from enclosing.IH have inc: "ProcessInclude fuel E full_path dirs f (int (length pre) + 1) st1 = Some (False, st')"
    and grow: "\<exists>a. out st' = out st1 @ a" by simp_all
  have "process_lines fuel E f dirs (pre @ line # post) 0 st =
          process_lines fuel E f dirs (line # post) (0 + int (length pre)) st1"
    unfolding process_lines_append [of fuel E f dirs pre "line # post"] enclosing(3) by simp
  also have "\<dots> = Some (False, st')"
    unfolding process_lines_directive [OF enclosing(4)] using inc by (simp add: ac_simps)
  finally have "ProcessInclude (Suc fuel) E f dirs src ln st = Some (False, st')"
    using enclosing(1,2) by simp
  moreover from process_lines_out_prefix [OF enclosing(3)] have "\<exists>a. out st1 = out st @ a"
    by (auto simp: append_streams_def)
  ultimately show ?case using grow by auto
qed

lemma fails_at_depth_complete:
  assumes empty: "fs_open E [] = None"
  shows "ProcessInclude fuel E f dirs src ln st = Some (False, st') \<Longrightarrow>
         fs_open E f \<noteq> None \<or> src \<noteq> [] \<Longrightarrow>
         fails_at_depth E dirs fuel f src ln st st'"
proof (induction fuel arbitrary: f src ln st st')
  case 0
  then show ?case by simp
next
  case (Suc n)
  show ?case
  proof (cases "fs_open E f")
    case None
    with Suc.prems(2) have src: "src \<noteq> []" by simp
    from ProcessInclude_unopenable [OF None Suc.prems(1)] src
    have "st' = st\<lparr>cout := cout st @ diagnostic (filename E f) src ln\<rparr>" by simp
    then show ?thesis
      using fails_at_depth.unopenable [OF None src, of dirs n ln st] by simp
  next
    case (Some content)
    with empty have ne: "f \<noteq> []" by auto
    from Some Suc.prems(1) have "process_lines n E f dirs (getlines content) 0 st = Some (False, st')"
      by simp
    from failure_decomposition [OF this] obtain pre line post st1 where
      ls: "getlines content = pre @ line # post"
      and pre: "process_lines n E f dirs pre 0 st = Some (True, st1)"
      and line: "classify line \<noteq> PlainText line"
      and fail: "process_lines n E f dirs [line] (0 + int (length pre)) st1 = Some (False, st')"
      by blast
    have k: "0 + int (length pre) + 1 = int (length pre) + 1" by simp
    show ?thesis
    proof (cases "resolve E f dirs (classify line)")
      case None
      with failing_line_cases [OF fail]
      have "st' = st1\<lparr>cout := cout st1 @ diagnostic (include_path (classify line)) f (int (length pre) + 1)\<rparr>"
        by (simp add: k)
      then show ?thesis
        using fails_at_depth.unresolved [OF Some ls pre line None, of src ln] by simp
    next
      case r: (Some p)
      with failing_line_cases [OF fail]
      have "ProcessInclude n E p dirs f (int (length pre) + 1) st1 = Some (False, st')"
        by (simp add: k)
      from Suc.IH [OF this] ne
      have "fails_at_depth E dirs n p f (int (length pre) + 1) st1 st'" by simp
      then show ?thesis
        by (rule fails_at_depth.enclosing [OF Some ls pre r])
    qed
  qed
qed

subsection \<open>The file system after the output file was opened\<close>

lemma fs_open_truncated_input:
  "fs_open E input_file \<noteq> None \<Longrightarrow> fs_open (truncated E output_file) input_file \<noteq> None"
  by (auto simp: truncated_def)

lemma truncated_twice: "truncated (truncated E p) p = truncated E p"
  by (rule env.equality) (auto simp: truncated_def names_file_def fun_eq_iff)

subsection \<open>The program's own test\<close>

text \<open>\<^verbatim>\<open>Test()\<close> asserts that \<^verbatim>\<open>Preprocess\<close> fails on its tree and leaves the expected text in
  \<^verbatim>\<open>sources/a.in\<close> (lines 240 and 260). The model gives the same, with the diagnostic of the
  unresolvable \<^verbatim>\<open>dummy.txt\<close>.\<close>

lemma Test_assertions:
  "Preprocess 4 test_env ''sources/a.cpp'' ''sources/a.in'' test_include_dirs
       \<lparr>console = [], out_file = None\<rparr> =
     Some (False, \<lparr>console = ''unknown include file dummy.txt at file sources/a.cpp at line 8'' @ [newline],
                   out_file = Some test_out\<rparr>)"
  by code_simp

section \<open>The claims\<close>

text \<open>
  Claim C1. A line is a directive only when the whole line matches the anchored pattern; a
  line with other text before the \<^verbatim>\<open>#\<close> or after the closing delimiter is plain text and
  is copied verbatim. The program breaks this. Its patterns begin and end with \<^verbatim>\<open>\s*\<close>,
  which only a match of the whole line can use, but it calls \<^verbatim>\<open>regex_search\<close>, which finds
  the pattern inside a line, and then replaces the whole line. The line
  \<^verbatim>\<open>x = 1; #include "x.h" // tail\<close> is plain text for the specification's matcher; the
  program takes it for a local directive and writes the content of \<^verbatim>\<open>x.h\<close> in its place,
  so that the text around the directive is lost. The comment \<^verbatim>\<open>// #include <only.h>\<close> is
  plain text as well; the program takes it for a global directive and fails on it.
\<close>

theorem directive_inside_a_line_is_expanded:
  \<open>spec_classify ''x = 1; #include "x.h" // tail'' = PlainText ''x = 1; #include "x.h" // tail''
   \<and> classify ''x = 1; #include "x.h" // tail'' = Local ''x.h''
   \<and> process_lines 1 shadow_env ''src/a.cpp'' [''inc''] [''x = 1; #include "x.h" // tail''] 0 no_output =
       Some (True, \<lparr>out = ''local x'' @ [newline], cout = []\<rparr>)
   \<and> spec_classify ''// #include <only.h>'' = PlainText ''// #include <only.h>''
   \<and> classify ''// #include <only.h>'' = Global ''only.h''
   \<and> process_lines 1 shadow_env ''src/a.cpp'' [''inc''] [''// #include <only.h>''] 0 no_output =
       Some (False, \<lparr>out = [], cout = ''unknown include file only.h at file src/a.cpp at line 1'' @ [newline]\<rparr>)\<close>
  by code_simp



text \<open>
  Claim C3. A \<open>Local\<close> directive resolves to the first existing candidate of the list that
  starts with the name relative to the directory of the including file and goes on with
  the search directories in their order; the search directories are looked at only when
  the relative candidate does not exist; the expander recurses into that one file, and
  reports the directive when no candidate exists.
\<close>

theorem local_resolution_order:
  assumes "classify line = Local name"
  shows "let candidates = path_append E (parent_path E current_file) name #
                          map (\<lambda>dir. path_append E dir name) include_dirs
         in resolve E current_file include_dirs (classify line) = List.find (fs_exists E) candidates
          \<and> (\<forall>p. resolve E current_file include_dirs (classify line) = Some p \<longleftrightarrow>
                (\<exists>i<length candidates. fs_exists E (candidates ! i) \<and> p = candidates ! i \<and>
                    (\<forall>j<i. \<not> fs_exists E (candidates ! j))))
          \<and> (resolve E current_file include_dirs (classify line) = None \<longleftrightarrow>
                (\<forall>c\<in>set candidates. \<not> fs_exists E c))
          \<and> process_lines fuel E current_file include_dirs (line # rest) line_number st =
               (case List.find (fs_exists E) candidates of
                  None \<Rightarrow>
                    Some (False, st\<lparr>cout := cout st @ diagnostic name current_file (line_number + 1)\<rparr>)
                | Some p \<Rightarrow>
                   (case ProcessInclude fuel E p include_dirs current_file (line_number + 1) st of
                      None \<Rightarrow> None
                    | Some (ok, st') \<Rightarrow>
                        if ok then process_lines fuel E current_file include_dirs rest (line_number + 1) st'
                        else Some (False, st')))"
proof -
  define candidates where "candidates = path_append E (parent_path E current_file) name #
                          map (\<lambda>dir. path_append E dir name) include_dirs"
  have r: "resolve E current_file include_dirs (classify line) = List.find (fs_exists E) candidates"
    using assms by (simp add: resolve_local_find candidates_def)
  have s: "(resolve E current_file include_dirs (classify line) = Some p) =
                (\<exists>i<length candidates. fs_exists E (candidates ! i) \<and> p = candidates ! i \<and>
                    (\<forall>j<i. \<not> fs_exists E (candidates ! j)))" for p
    unfolding r by (rule find_Some_iff)
  have n: "(resolve E current_file include_dirs (classify line) = None) =
                (\<forall>c\<in>set candidates. \<not> fs_exists E c)"
    unfolding r by (auto simp: find_None_iff)
  have p: "process_lines fuel E current_file include_dirs (line # rest) line_number st =
               (case List.find (fs_exists E) candidates of
                  None \<Rightarrow>
                    Some (False, st\<lparr>cout := cout st @ diagnostic name current_file (line_number + 1)\<rparr>)
                | Some p \<Rightarrow>
                   (case ProcessInclude fuel E p include_dirs current_file (line_number + 1) st of
                      None \<Rightarrow> None
                    | Some (ok, st') \<Rightarrow>
                        if ok then process_lines fuel E current_file include_dirs rest (line_number + 1) st'
                        else Some (False, st')))"
    using assms r [symmetric] by (simp split: option.splits)
  show ?thesis
    unfolding Let_def candidates_def [symmetric] using r s n p by blast
qed

theorem local_resolution_order_witness:
  \<open>classify ''#include "x.h"'' = Local ''x.h''
   \<and> fs_exists shadow_env ''src/x.h'' \<and> fs_exists shadow_env ''inc/x.h''
   \<and> resolve shadow_env ''src/a.cpp'' [''inc''] (classify ''#include "x.h"'') = Some ''src/x.h''
   \<and> process_lines 1 shadow_env ''src/a.cpp'' [''inc''] [''#include "x.h"''] 0 no_output =
       Some (True, \<lparr>out = ''local x'' @ [newline], cout = []\<rparr>)
   \<and> classify ''#include "lib/std2.h"'' = Local ''lib/std2.h''
   \<and> \<not> fs_exists test_env ''sources/dir1/lib/std2.h'' \<and> \<not> fs_exists test_env ''sources/include1/lib/std2.h''
   \<and> resolve test_env ''sources/dir1/d.h'' test_include_dirs (classify ''#include "lib/std2.h"'') =
       Some ''sources/include2/lib/std2.h''\<close>
proof -
  have h1: \<open>classify ''#include "x.h"'' = Local ''x.h''\<close> by code_simp
  have h2: \<open>classify ''#include "lib/std2.h"'' = Local ''lib/std2.h''\<close> by code_simp
  have e1: "fs_exists shadow_env ''src/x.h''" by code_simp
  have e2: "fs_exists shadow_env ''inc/x.h''" by code_simp
  have e3: "\<not> fs_exists test_env ''sources/dir1/lib/std2.h''" by code_simp
  have e4: "\<not> fs_exists test_env ''sources/include1/lib/std2.h''" by code_simp
  have f1: "List.find (fs_exists shadow_env)
              (path_append shadow_env (parent_path shadow_env ''src/a.cpp'') ''x.h'' #
               map (\<lambda>dir. path_append shadow_env dir ''x.h'') [''inc'']) = Some ''src/x.h''"
    by code_simp
  have f2: "List.find (fs_exists test_env)
              (path_append test_env (parent_path test_env ''sources/dir1/d.h'') ''lib/std2.h'' #
               map (\<lambda>dir. path_append test_env dir ''lib/std2.h'') test_include_dirs) =
            Some ''sources/include2/lib/std2.h''"
    by code_simp
  have p1: "ProcessInclude 1 shadow_env ''src/x.h'' [''inc''] ''src/a.cpp'' (0 + 1) no_output =
              Some (True, \<lparr>out = ''local x'' @ [newline], cout = []\<rparr>)"
    by code_simp
  note t1 = local_resolution_order [OF h1, of shadow_env "''src/a.cpp''" "[''inc'']" 1 "[]" 0 no_output,
      unfolded Let_def f1]
  note t2 = local_resolution_order [OF h2, of test_env "''sources/dir1/d.h''" test_include_dirs 1 "[]" 0 no_output,
      unfolded Let_def f2]
  from t1 have r1: \<open>resolve shadow_env ''src/a.cpp'' [''inc''] (classify ''#include "x.h"'') = Some ''src/x.h''\<close>
    by blast
  have q1: \<open>process_lines 1 shadow_env ''src/a.cpp'' [''inc''] [''#include "x.h"''] 0 no_output =
       Some (True, \<lparr>out = ''local x'' @ [newline], cout = []\<rparr>)\<close>
    using t1 [THEN conjunct2, THEN conjunct2, THEN conjunct2]
    by (simp only: option.case p1 prod.case if_True process_lines.simps(1))
  from t2 have r2: \<open>resolve test_env ''sources/dir1/d.h'' test_include_dirs (classify ''#include "lib/std2.h"'') =
       Some ''sources/include2/lib/std2.h''\<close>
    by blast
  from h1 h2 e1 e2 e3 e4 r1 q1 r2 show ?thesis by blast
qed

text \<open>
  Claim C4. A \<open>Global\<close> directive resolves to the first existing candidate among the search
  directories in their order; the result does not depend on the including file or on its
  directory; when the name exists in no search directory the directive fails with its
  diagnostic, also when the name exists beside the including file.
\<close>

theorem global_resolution_search_list_only:
  assumes "classify line = Global name"
  shows "resolve E current_file include_dirs (classify line) =
           List.find (fs_exists E) (map (\<lambda>dir. path_append E dir name) include_dirs)
       \<and> resolve (E\<lparr>parent_path := other_parent\<rparr>) other_file include_dirs (classify line) =
           resolve E current_file include_dirs (classify line)
       \<and> ((\<forall>dir\<in>set include_dirs. \<not> fs_exists E (path_append E dir name)) \<longrightarrow>
            process_lines fuel E current_file include_dirs (line # rest) line_number st =
              Some (False, st\<lparr>cout := cout st @ diagnostic name current_file (line_number + 1)\<rparr>))"
proof -
  have a: "resolve E current_file include_dirs (classify line) =
           List.find (fs_exists E) (map (\<lambda>dir. path_append E dir name) include_dirs)"
    using assms by (simp add: resolve_global_def find_in_dirs_find)
  have b: "resolve (E\<lparr>parent_path := other_parent\<rparr>) other_file include_dirs (classify line) =
           resolve E current_file include_dirs (classify line)"
    using assms by (simp add: resolve_global_def find_in_dirs_find)
  have c: "process_lines fuel E current_file include_dirs (line # rest) line_number st =
              Some (False, st\<lparr>cout := cout st @ diagnostic name current_file (line_number + 1)\<rparr>)"
    if "\<forall>dir\<in>set include_dirs. \<not> fs_exists E (path_append E dir name)"
  proof -
    from that have "List.find (fs_exists E) (map (\<lambda>dir. path_append E dir name) include_dirs) = None"
      by (simp add: find_None_iff)
    with a assms show ?thesis by simp
  qed
  from a b c show ?thesis by blast
qed

theorem global_resolution_search_list_only_witness:
  \<open>classify ''#include <only.h>'' = Global ''only.h''
   \<and> fs_exists shadow_env (path_append shadow_env (parent_path shadow_env ''src/a.cpp'') ''only.h'')
   \<and> list_all (\<lambda>dir. \<not> fs_exists shadow_env (path_append shadow_env dir ''only.h'')) [''inc'']
   \<and> resolve shadow_env ''src/a.cpp'' [''inc''] (classify ''#include <only.h>'') = None
   \<and> process_lines 1 shadow_env ''src/a.cpp'' [''inc''] [''#include <only.h>''] 0 no_output =
       Some (False, \<lparr>out = [], cout = ''unknown include file only.h at file src/a.cpp at line 1'' @ [newline]\<rparr>)
   \<and> resolve shadow_env ''src/a.cpp'' [''inc''] (classify ''#include "only.h"'') = Some ''src/only.h''\<close>
proof -
  have h: \<open>classify ''#include <only.h>'' = Global ''only.h''\<close> by code_simp
  have e: "fs_exists shadow_env (path_append shadow_env (parent_path shadow_env ''src/a.cpp'') ''only.h'')"
    by code_simp
  have l: "list_all (\<lambda>dir. \<not> fs_exists shadow_env (path_append shadow_env dir ''only.h'')) [''inc'']"
    by code_simp
  then have b: "\<forall>dir\<in>set [''inc'']. \<not> fs_exists shadow_env (path_append shadow_env dir ''only.h'')"
    by (simp add: list_all_iff)
  have f: "List.find (fs_exists shadow_env) (map (\<lambda>dir. path_append shadow_env dir ''only.h'') [''inc'']) = None"
    by code_simp
  have d: "diagnostic ''only.h'' ''src/a.cpp'' (0 + 1) =
             ''unknown include file only.h at file src/a.cpp at line 1'' @ [newline]"
    by code_simp
  have loc: \<open>resolve shadow_env ''src/a.cpp'' [''inc''] (classify ''#include "only.h"'') = Some ''src/only.h''\<close>
    by code_simp
  note t = global_resolution_search_list_only [OF h, of shadow_env "''src/a.cpp''" "[''inc'']"
      posix_parent_path "''src/a.cpp''" 1 "[]" 0 no_output, unfolded f]
  from t have r: \<open>resolve shadow_env ''src/a.cpp'' [''inc''] (classify ''#include <only.h>'') = None\<close>
    by blast
  have q: \<open>process_lines 1 shadow_env ''src/a.cpp'' [''inc''] [''#include <only.h>''] 0 no_output =
       Some (False, \<lparr>out = [], cout = ''unknown include file only.h at file src/a.cpp at line 1'' @ [newline]\<rparr>)\<close>
    using t [THEN conjunct2, THEN conjunct2, THEN mp, OF b]
    by (simp only: d) (simp add: no_output_def)
  from h e l r q loc show ?thesis by blast
qed

text \<open>
  Claim C5. Expansion is depth-first and eager. When a line of the including file has been
  processed with the lines after it, the output is what was there before, followed by
  the whole expansion of the included file (or by the line itself and a line feed, for a
  plain line), followed by the expansion of the lines after it: nothing is reordered or
  dropped. When the included file fails, the output ends with what that file had written
  and the lines after the directive are not processed.
\<close>

theorem depth_first_eager:
  assumes "process_lines fuel E current_file include_dirs (line # rest) line_number st = Some (ok, st')"
  shows "(classify line = PlainText line \<longrightarrow>
            (\<exists>rst. process_lines fuel E current_file include_dirs rest (line_number + 1) no_output = Some (ok, rst)
                 \<and> out st' = out st @ (line @ [newline]) @ out rst))
       \<and> (\<forall>p. resolve E current_file include_dirs (classify line) = Some p \<longrightarrow>
            (\<exists>ok1 inc. ProcessInclude fuel E p include_dirs current_file (line_number + 1) no_output = Some (ok1, inc)
               \<and> (if ok1
                   then \<exists>rst. process_lines fuel E current_file include_dirs rest (line_number + 1) no_output
                                 = Some (ok, rst)
                              \<and> out st' = out st @ out inc @ out rst
                   else \<not> ok \<and> out st' = out st @ out inc)))"
proof (intro conjI impI allI)
  assume pl: "classify line = PlainText line"
  with assms have "process_lines fuel E current_file include_dirs rest (line_number + 1)
                     (st\<lparr>out := out st @ line @ [newline]\<rparr>) = Some (ok, st')"
    by simp
  from process_lines_out_prefix [OF this]
  show "\<exists>rst. process_lines fuel E current_file include_dirs rest (line_number + 1) no_output = Some (ok, rst)
                 \<and> out st' = out st @ (line @ [newline]) @ out rst"
    by (auto simp: append_streams_def)
next
  fix p
  assume r: "resolve E current_file include_dirs (classify line) = Some p"
  from assms obtain ok1 st1 where
    inc: "ProcessInclude fuel E p include_dirs current_file (line_number + 1) st = Some (ok1, st1)"
    and rest: "if ok1 then process_lines fuel E current_file include_dirs rest (line_number + 1) st1 = Some (ok, st')
               else \<not> ok \<and> st' = st1"
    unfolding process_lines_directive [OF r] by (auto split: option.splits if_splits)
  from ProcessInclude_out_prefix [OF inc] obtain d where
    d: "ProcessInclude fuel E p include_dirs current_file (line_number + 1) no_output = Some (ok1, d)"
    and st1: "st1 = append_streams st d" by blast
  show "\<exists>ok1 inc. ProcessInclude fuel E p include_dirs current_file (line_number + 1) no_output = Some (ok1, inc)
               \<and> (if ok1
                   then \<exists>rst. process_lines fuel E current_file include_dirs rest (line_number + 1) no_output
                                 = Some (ok, rst)
                              \<and> out st' = out st @ out inc @ out rst
                   else \<not> ok \<and> out st' = out st @ out inc)"
  proof (cases ok1)
    case True
    with rest have "process_lines fuel E current_file include_dirs rest (line_number + 1) st1 = Some (ok, st')"
      by simp
    from process_lines_out_prefix [OF this] obtain rst where
      "process_lines fuel E current_file include_dirs rest (line_number + 1) no_output = Some (ok, rst)"
      and "st' = append_streams st1 rst" by blast
    with d st1 True show ?thesis by (auto simp: append_streams_def)
  next
    case False
    with rest d st1 show ?thesis by (auto simp: append_streams_def)
  qed
qed

theorem depth_first_eager_witness:
  \<open>process_lines 2 test_env ''sources/dir1/b.h'' test_include_dirs
      [''#include "subdir/c.h"'', ''// text from b.h after include''] 1 no_output =
     Some (True, \<lparr>out = (''// text from c.h before include'' @ [newline] @ ''// std1'' @ [newline] @
                         ''// text from c.h after include'' @ [newline]) @
                        (''// text from b.h after include'' @ [newline]),
                  cout = []\<rparr>)
   \<and> resolve test_env ''sources/dir1/b.h'' test_include_dirs (classify ''#include "subdir/c.h"'') =
       Some ''sources/dir1/subdir/c.h''
   \<and> ProcessInclude 2 test_env ''sources/dir1/subdir/c.h'' test_include_dirs ''sources/dir1/b.h'' (1 + 1) no_output =
       Some (True, \<lparr>out = ''// text from c.h before include'' @ [newline] @ ''// std1'' @ [newline] @
                         ''// text from c.h after include'' @ [newline], cout = []\<rparr>)
   \<and> (\<exists>rst. process_lines 2 test_env ''sources/dir1/b.h'' test_include_dirs
                [''// text from b.h after include''] (1 + 1) no_output = Some (True, rst)
            \<and> out \<lparr>out = (''// text from c.h before include'' @ [newline] @ ''// std1'' @ [newline] @
                         ''// text from c.h after include'' @ [newline]) @
                        (''// text from b.h after include'' @ [newline]),
                    cout = []\<rparr> =
              out no_output @
              out \<lparr>out = ''// text from c.h before include'' @ [newline] @ ''// std1'' @ [newline] @
                         ''// text from c.h after include'' @ [newline], cout = []\<rparr> @
              out rst)
   \<and> classify ''// std1'' = PlainText ''// std1''
   \<and> process_lines 0 test_env ''sources/include1/std1.h'' test_include_dirs [''// std1'', ''int x;''] 0
         \<lparr>out = ''before'', cout = []\<rparr> =
       Some (True, \<lparr>out = ''before'' @ ''// std1'' @ [newline] @ ''int x;'' @ [newline], cout = []\<rparr>)
   \<and> (\<exists>rst. process_lines 0 test_env ''sources/include1/std1.h'' test_include_dirs [''int x;''] (0 + 1)
                no_output = Some (True, rst)
            \<and> out \<lparr>out = ''before'' @ ''// std1'' @ [newline] @ ''int x;'' @ [newline], cout = []\<rparr> =
              out \<lparr>out = ''before'', cout = []\<rparr> @ (''// std1'' @ [newline]) @ out rst)\<close>
proof -
  let ?inc = "\<lparr>out = ''// text from c.h before include'' @ [newline] @ ''// std1'' @ [newline] @
                         ''// text from c.h after include'' @ [newline], cout = []\<rparr>"
  let ?sa = "\<lparr>out = (''// text from c.h before include'' @ [newline] @ ''// std1'' @ [newline] @
                         ''// text from c.h after include'' @ [newline]) @
                        (''// text from b.h after include'' @ [newline]),
                  cout = []\<rparr>"
  have h: \<open>process_lines 2 test_env ''sources/dir1/b.h'' test_include_dirs
      [''#include "subdir/c.h"'', ''// text from b.h after include''] 1 no_output = Some (True, ?sa)\<close>
    by code_simp
  have r: \<open>resolve test_env ''sources/dir1/b.h'' test_include_dirs (classify ''#include "subdir/c.h"'') =
       Some ''sources/dir1/subdir/c.h''\<close>
    by code_simp
  have i: "ProcessInclude 2 test_env ''sources/dir1/subdir/c.h'' test_include_dirs ''sources/dir1/b.h'' (1 + 1) no_output =
       Some (True, ?inc)"
    by code_simp
  from depth_first_eager [OF h, THEN conjunct2, THEN spec, THEN mp, OF r]
  obtain ok1 inc where
    i': "ProcessInclude 2 test_env ''sources/dir1/subdir/c.h'' test_include_dirs ''sources/dir1/b.h'' (1 + 1) no_output =
          Some (ok1, inc)"
    and c: "if ok1
            then \<exists>rst. process_lines 2 test_env ''sources/dir1/b.h'' test_include_dirs
                          [''// text from b.h after include''] (1 + 1) no_output = Some (True, rst)
                      \<and> out ?sa = out no_output @ out inc @ out rst
            else \<not> True \<and> out ?sa = out no_output @ out inc"
    by blast
  from i i' have "ok1 = True" "inc = ?inc" by simp_all
  with c have e: "\<exists>rst. process_lines 2 test_env ''sources/dir1/b.h'' test_include_dirs
                          [''// text from b.h after include''] (1 + 1) no_output = Some (True, rst)
                      \<and> out ?sa = out no_output @ out ?inc @ out rst"
    by (simp only: if_True)
  have p: "classify ''// std1'' = PlainText ''// std1''" by code_simp
  have q: "process_lines 0 test_env ''sources/include1/std1.h'' test_include_dirs [''// std1'', ''int x;''] 0
         \<lparr>out = ''before'', cout = []\<rparr> =
       Some (True, \<lparr>out = ''before'' @ ''// std1'' @ [newline] @ ''int x;'' @ [newline], cout = []\<rparr>)"
    by code_simp
  note f = depth_first_eager [OF q, THEN conjunct1, THEN mp, OF p]
  from h r i e p q f show ?thesis by blast
qed

text \<open>
  Claim C6. When a directive fails at any depth, because its name is found nowhere or
  because its file cannot be opened, the call on the file that holds it and the calls on
  every enclosing file return false at once, with the streams as the failure left them:
  the lines before the failing directive, at each level, were expanded, the lines after
  it are not looked at, and the output has only grown. Conversely a call that returns
  false has met such a failure. With plain lines before an unresolved directive the
  output is the earlier output followed by exactly these lines. A run of \<^verbatim>\<open>Preprocess\<close>
  that has opened both files and does not read its own output back returns false with
  this output in the output file.
\<close>

theorem failure_short_circuit:
  "(fails_at_depth E include_dirs fuel file referencing_file referencing_line st st' \<longrightarrow>
      ProcessInclude fuel E file include_dirs referencing_file referencing_line st = Some (False, st')
      \<and> (\<exists>written. out st' = out st @ written))
   \<and> (fs_open E [] = None \<and> (fs_open E file \<noteq> None \<or> referencing_file \<noteq> [])
       \<and> ProcessInclude fuel E file include_dirs referencing_file referencing_line st = Some (False, st') \<longrightarrow>
      fails_at_depth E include_dirs fuel file referencing_file referencing_line st st')
   \<and> (fs_open E file = Some content \<and> getlines content = pre @ line # post
       \<and> (\<forall>l\<in>set pre. classify l = PlainText l)
       \<and> classify line \<noteq> PlainText line
       \<and> resolve E file include_dirs (classify line) = None \<longrightarrow>
      ProcessInclude (Suc fuel) E file include_dirs referencing_file referencing_line st =
        Some (False,
          \<lparr>out = out st @ concat (map (\<lambda>l. l @ [newline]) pre),
           cout = cout st @ diagnostic (include_path (classify line)) file (int (length pre) + 1)\<rparr>))
   \<and> (fs_open E input_file \<noteq> None \<and> fs_can_write E output_file
       \<and> \<not> reads_back fuel (truncated E output_file) output_file input_file include_dirs
             \<lparr>out = [], cout = console w\<rparr>
       \<and> fails_at_depth (truncated E output_file) include_dirs fuel input_file [] 0
             \<lparr>out = [], cout = console w\<rparr> st' \<longrightarrow>
      Preprocess fuel E input_file output_file include_dirs w =
        Some (False, \<lparr>console = cout st', out_file = Some (out st')\<rparr>))"
proof (intro conjI impI)
  assume "fails_at_depth E include_dirs fuel file referencing_file referencing_line st st'"
  from fails_at_depth_returns [OF this]
  show "ProcessInclude fuel E file include_dirs referencing_file referencing_line st = Some (False, st')"
    and "\<exists>written. out st' = out st @ written" by simp_all
next
  assume "fs_open E [] = None \<and> (fs_open E file \<noteq> None \<or> referencing_file \<noteq> [])
       \<and> ProcessInclude fuel E file include_dirs referencing_file referencing_line st = Some (False, st')"
  then show "fails_at_depth E include_dirs fuel file referencing_file referencing_line st st'"
    using fails_at_depth_complete by blast
next
  assume h: "fs_open E file = Some content \<and> getlines content = pre @ line # post
       \<and> (\<forall>l\<in>set pre. classify l = PlainText l)
       \<and> classify line \<noteq> PlainText line
       \<and> resolve E file include_dirs (classify line) = None"
  then have pre: "process_lines fuel E file include_dirs pre 0 st =
      Some (True, st\<lparr>out := out st @ concat (map (\<lambda>l. l @ [newline]) pre)\<rparr>)"
    using process_lines_all_plain by blast
  from h have "fails_at_depth E include_dirs (Suc fuel) file referencing_file referencing_line st
       ((st\<lparr>out := out st @ concat (map (\<lambda>l. l @ [newline]) pre)\<rparr>)
          \<lparr>cout := cout (st\<lparr>out := out st @ concat (map (\<lambda>l. l @ [newline]) pre)\<rparr>) @
                diagnostic (include_path (classify line)) file (int (length pre) + 1)\<rparr>)"
    using pre by (intro fails_at_depth.unresolved [where content = content and post = post]) simp_all
  from fails_at_depth_returns [OF this]
  show "ProcessInclude (Suc fuel) E file include_dirs referencing_file referencing_line st =
        Some (False,
          \<lparr>out = out st @ concat (map (\<lambda>l. l @ [newline]) pre),
           cout = cout st @ diagnostic (include_path (classify line)) file (int (length pre) + 1)\<rparr>)"
    by simp
next
  assume h: "fs_open E input_file \<noteq> None \<and> fs_can_write E output_file
       \<and> \<not> reads_back fuel (truncated E output_file) output_file input_file include_dirs
             \<lparr>out = [], cout = console w\<rparr>
       \<and> fails_at_depth (truncated E output_file) include_dirs fuel input_file [] 0
             \<lparr>out = [], cout = console w\<rparr> st'"
  then have "ProcessInclude fuel (truncated E output_file) input_file include_dirs [] 0
               \<lparr>out = [], cout = console w\<rparr> = Some (False, st')"
    using fails_at_depth_returns by blast
  with h show "Preprocess fuel E input_file output_file include_dirs w =
        Some (False, \<lparr>console = cout st', out_file = Some (out st')\<rparr>)"
    by (auto simp: Preprocess_def)
qed

theorem failure_short_circuit_witness:
  \<open>fails_at_depth chain_env [''inc''] 2 ''top.cpp'' [] 0 no_output
      \<lparr>out = ''top line'' @ [newline] @ ''mid line'' @ [newline],
       cout = ''unknown include file gone.h at file mid.h at line 2'' @ [newline]\<rparr>
   \<and> ProcessInclude 2 chain_env ''top.cpp'' [''inc''] [] 0 no_output =
       Some (False, \<lparr>out = ''top line'' @ [newline] @ ''mid line'' @ [newline],
                     cout = ''unknown include file gone.h at file mid.h at line 2'' @ [newline]\<rparr>)
   \<and> fails_at_depth chain_env [''inc''] 2 ''user.cpp'' [] 0 no_output
      \<lparr>out = ''user line'' @ [newline],
       cout = ''unknown include file locked.h at file user.cpp at line 2'' @ [newline]\<rparr>
   \<and> ProcessInclude 2 chain_env ''user.cpp'' [''inc''] [] 0 no_output =
       Some (False, \<lparr>out = ''user line'' @ [newline],
                     cout = ''unknown include file locked.h at file user.cpp at line 2'' @ [newline]\<rparr>)
   \<and> fs_open chain_env [] = None \<and> fs_open chain_env ''mid.h'' \<noteq> None
   \<and> ProcessInclude 1 chain_env ''mid.h'' [''inc''] ''top.cpp'' 2 no_output =
       Some (False, \<lparr>out = ''mid line'' @ [newline],
                     cout = ''unknown include file gone.h at file mid.h at line 2'' @ [newline]\<rparr>)
   \<and> fails_at_depth chain_env [''inc''] 1 ''mid.h'' ''top.cpp'' 2 no_output
       \<lparr>out = ''mid line'' @ [newline],
        cout = ''unknown include file gone.h at file mid.h at line 2'' @ [newline]\<rparr>
   \<and> fs_open chain_env ''mid.h'' =
         Some (''mid line'' @ [newline] @ ''#include <gone.h>'' @ [newline] @ ''mid line never reached'' @ [newline])
   \<and> list_all (\<lambda>l. classify l = PlainText l) [''mid line'']
   \<and> classify ''#include <gone.h>'' = Global ''gone.h''
   \<and> resolve chain_env ''mid.h'' [''inc''] (classify ''#include <gone.h>'') = None
   \<and> ProcessInclude (Suc 0) chain_env ''mid.h'' [''inc''] ''top.cpp'' 2 \<lparr>out = ''before'', cout = []\<rparr> =
       Some (False, \<lparr>out = ''before'' @ ''mid line'' @ [newline],
                     cout = ''unknown include file gone.h at file mid.h at line 2'' @ [newline]\<rparr>)
   \<and> fs_open chain_env ''top.cpp'' \<noteq> None \<and> fs_can_write chain_env ''flat.txt''
   \<and> \<not> reads_back 2 (truncated chain_env ''flat.txt'') ''flat.txt'' ''top.cpp'' [''inc'']
         \<lparr>out = [], cout = []\<rparr>
   \<and> Preprocess 2 chain_env ''top.cpp'' ''flat.txt'' [''inc''] \<lparr>console = [], out_file = Some ''old''\<rparr> =
       Some (False, \<lparr>console = ''unknown include file gone.h at file mid.h at line 2'' @ [newline],
                     out_file = Some (''top line'' @ [newline] @ ''mid line'' @ [newline])\<rparr>)\<close>
proof -
  let ?top = \<open>''top line'' @ [newline] @ ''#include '' @ [dquote] @ ''mid.h'' @ [dquote, newline] @
        ''top line never reached'' @ [newline]\<close>
  let ?mid = "''mid line'' @ [newline] @ ''#include <gone.h>'' @ [newline] @ ''mid line never reached'' @ [newline]"
  let ?user = \<open>''user line'' @ [newline] @ ''#include '' @ [dquote] @ ''locked.h'' @ [dquote, newline] @
        ''user line never reached'' @ [newline]\<close>
  let ?inc_mid = \<open>''#include "mid.h"''\<close>
  let ?inc_locked = \<open>''#include "locked.h"''\<close>
  let ?sa = "\<lparr>out = ''top line'' @ [newline], cout = []\<rparr>"
  let ?sb = "\<lparr>out = ''top line'' @ [newline] @ ''mid line'' @ [newline], cout = []\<rparr>"
  let ?sc = "\<lparr>out = ''top line'' @ [newline] @ ''mid line'' @ [newline],
       cout = ''unknown include file gone.h at file mid.h at line 2'' @ [newline]\<rparr>"
  let ?ua = "\<lparr>out = ''user line'' @ [newline], cout = []\<rparr>"
  let ?ub = "\<lparr>out = ''user line'' @ [newline],
       cout = ''unknown include file locked.h at file user.cpp at line 2'' @ [newline]\<rparr>"
  have deep: "fails_at_depth E [''inc''] (Suc 0) ''mid.h'' ''top.cpp'' (int (length [''top line'']) + 1) ?sa ?sc"
    if E: "fs_open E ''mid.h'' = Some ?mid"
      "process_lines 0 E ''mid.h'' [''inc''] [''mid line''] 0 ?sa = Some (True, ?sb)"
      "resolve E ''mid.h'' [''inc''] (classify ''#include <gone.h>'') = None"
    for E
  proof -
    have g: "getlines ?mid = [''mid line''] @ ''#include <gone.h>'' # [''mid line never reached'']"
      by code_simp
    have c: "classify ''#include <gone.h>'' \<noteq> PlainText ''#include <gone.h>''" by code_simp
    have e: "?sb\<lparr>cout := cout ?sb @ diagnostic (include_path (classify ''#include <gone.h>'')) ''mid.h''
                               (int (length [''mid line'']) + 1)\<rparr> = ?sc"
      by code_simp
    show ?thesis
      using fails_at_depth.unresolved [OF E(1) g E(2) c E(3), of "''top.cpp''" "int (length [''top line'']) + 1"]
      unfolding e .
  qed
  have top: "fails_at_depth E [''inc''] (Suc (Suc 0)) ''top.cpp'' [] 0 \<lparr>out = [], cout = []\<rparr> ?sc"
    if E: "fs_open E ''top.cpp'' = Some ?top"
      "process_lines (Suc 0) E ''top.cpp'' [''inc''] [''top line''] 0 \<lparr>out = [], cout = []\<rparr> = Some (True, ?sa)"
      "resolve E ''top.cpp'' [''inc''] (classify ?inc_mid) = Some ''mid.h''"
      "fs_open E ''mid.h'' = Some ?mid"
      "process_lines 0 E ''mid.h'' [''inc''] [''mid line''] 0 ?sa = Some (True, ?sb)"
      "resolve E ''mid.h'' [''inc''] (classify ''#include <gone.h>'') = None"
    for E
  proof -
    have g: "getlines ?top = [''top line''] @ ?inc_mid # [''top line never reached'']"
      by code_simp
    show ?thesis
      by (rule fails_at_depth.enclosing [OF E(1) g E(2) E(3) deep [OF E(4,5,6)]])
  qed
  have two: "(2::nat) = Suc (Suc 0)" by simp
  have n0: "no_output = \<lparr>out = [], cout = []\<rparr>" by (simp add: no_output_def)
  have f1: "fails_at_depth chain_env [''inc''] 2 ''top.cpp'' [] 0 no_output ?sc"
    unfolding two n0 by (rule top; code_simp)
  have r1: "ProcessInclude 2 chain_env ''top.cpp'' [''inc''] [] 0 no_output = Some (False, ?sc)"
    using failure_short_circuit [THEN conjunct1, THEN mp, OF f1] by blast
  have f2: "fails_at_depth chain_env [''inc''] 2 ''user.cpp'' [] 0 no_output ?ub"
  proof -
    have o: "fs_open chain_env ''user.cpp'' = Some ?user" by code_simp
    have g: "getlines ?user = [''user line''] @ ?inc_locked # [''user line never reached'']" by code_simp
    have p: "process_lines (Suc 0) chain_env ''user.cpp'' [''inc''] [''user line''] 0 \<lparr>out = [], cout = []\<rparr> =
               Some (True, ?ua)" by code_simp
    have r: "resolve chain_env ''user.cpp'' [''inc''] (classify ?inc_locked) = Some ''locked.h''" by code_simp
    have l: "fs_open chain_env ''locked.h'' = None" by code_simp
    have ne: "''user.cpp'' \<noteq> []" by simp
    have e: "?ua\<lparr>cout := cout ?ua @ diagnostic (filename chain_env ''locked.h'') ''user.cpp''
                              (int (length [''user line'']) + 1)\<rparr> = ?ub"
      by code_simp
    have d: "fails_at_depth chain_env [''inc''] (Suc 0) ''locked.h'' ''user.cpp'' (int (length [''user line'']) + 1) ?ua ?ub"
      using fails_at_depth.unopenable [OF l ne, of "[''inc'']" 0 "int (length [''user line'']) + 1" ?ua]
      unfolding e .
    show ?thesis
      unfolding two n0 by (rule fails_at_depth.enclosing [OF o g p r d])
  qed
  have r2: "ProcessInclude 2 chain_env ''user.cpp'' [''inc''] [] 0 no_output = Some (False, ?ub)"
    using failure_short_circuit [THEN conjunct1, THEN mp, OF f2] by blast
  have m1: "fs_open chain_env ''mid.h'' = Some ?mid" by code_simp
  have m2: "getlines ?mid = [''mid line''] @ ''#include <gone.h>'' # [''mid line never reached'']"
    by code_simp
  have m3: "list_all (\<lambda>l. classify l = PlainText l) [''mid line'']" by code_simp
  then have m3': "\<forall>l\<in>set [''mid line'']. classify l = PlainText l" by (simp add: list_all_iff)
  have m4: "classify ''#include <gone.h>'' = Global ''gone.h''" by code_simp
  then have m4': "classify ''#include <gone.h>'' \<noteq> PlainText ''#include <gone.h>''" by simp
  have m5: "resolve chain_env ''mid.h'' [''inc''] (classify ''#include <gone.h>'') = None" by code_simp
  have m6: "\<lparr>out = out \<lparr>out = ''before'', cout = []\<rparr> @ concat (map (\<lambda>l. l @ [newline]) [''mid line'']),
           cout = cout \<lparr>out = ''before'', cout = []\<rparr> @
             diagnostic (include_path (classify ''#include <gone.h>'')) ''mid.h'' (int (length [''mid line'']) + 1)\<rparr>
         = \<lparr>out = ''before'' @ ''mid line'' @ [newline],
            cout = ''unknown include file gone.h at file mid.h at line 2'' @ [newline]\<rparr>"
    by code_simp
  have r3: "ProcessInclude (Suc 0) chain_env ''mid.h'' [''inc''] ''top.cpp'' 2 \<lparr>out = ''before'', cout = []\<rparr> =
       Some (False, \<lparr>out = ''before'' @ ''mid line'' @ [newline],
                     cout = ''unknown include file gone.h at file mid.h at line 2'' @ [newline]\<rparr>)"
    using failure_short_circuit [where E = chain_env and ?file = "''mid.h''" and content = ?mid
          and pre = "[''mid line'']"
          and line = "''#include <gone.h>''" and post = "[''mid line never reached'']"
          and include_dirs = "[''inc'']" and fuel = 0 and referencing_file = "''top.cpp''"
          and referencing_line = 2 and st = "\<lparr>out = ''before'', cout = []\<rparr>",
        THEN conjunct2, THEN conjunct2, THEN conjunct1, THEN mp]
      m1 m2 m3' m4' m5
    unfolding m6 by blast
  have d1: "fs_open chain_env ''top.cpp'' \<noteq> None" by code_simp
  have d2: "fs_can_write chain_env ''flat.txt''" by code_simp
  have d3: "\<not> reads_back 2 (truncated chain_env ''flat.txt'') ''flat.txt'' ''top.cpp'' [''inc'']
         \<lparr>out = [], cout = []\<rparr>" by code_simp
  have d4: "fails_at_depth (truncated chain_env ''flat.txt'') [''inc''] 2 ''top.cpp'' [] 0
              \<lparr>out = [], cout = console \<lparr>console = [], out_file = Some ''old''\<rparr>\<rparr> ?sc"
    unfolding two world.simps by (rule top; code_simp)
  have d3': "\<not> reads_back 2 (truncated chain_env ''flat.txt'') ''flat.txt'' ''top.cpp'' [''inc'']
         \<lparr>out = [], cout = console \<lparr>console = [], out_file = Some ''old''\<rparr>\<rparr>"
    using d3 by simp
  have r4: "Preprocess 2 chain_env ''top.cpp'' ''flat.txt'' [''inc''] \<lparr>console = [], out_file = Some ''old''\<rparr> =
       Some (False, \<lparr>console = ''unknown include file gone.h at file mid.h at line 2'' @ [newline],
                     out_file = Some (''top line'' @ [newline] @ ''mid line'' @ [newline])\<rparr>)"
    using failure_short_circuit [THEN conjunct2, THEN conjunct2, THEN conjunct2, THEN mp,
        OF conjI [OF d1 conjI [OF d2 conjI [OF d3' d4]]]]
    by simp
  have v1: "fs_open chain_env [] = None" by code_simp
  have v2: "fs_open chain_env ''mid.h'' \<noteq> None" by code_simp
  have v3: "ProcessInclude 1 chain_env ''mid.h'' [''inc''] ''top.cpp'' 2 no_output =
       Some (False, \<lparr>out = ''mid line'' @ [newline],
                     cout = ''unknown include file gone.h at file mid.h at line 2'' @ [newline]\<rparr>)"
    by code_simp
  have v4: "fails_at_depth chain_env [''inc''] 1 ''mid.h'' ''top.cpp'' 2 no_output
       \<lparr>out = ''mid line'' @ [newline],
        cout = ''unknown include file gone.h at file mid.h at line 2'' @ [newline]\<rparr>"
    using failure_short_circuit [THEN conjunct2, THEN conjunct1, THEN mp,
        OF conjI [OF v1 conjI [OF disjI1 [OF v2] v3]]] .
  from f1 r1 f2 r2 v1 v2 v3 v4 m1 m3 m4 m5 r3 d1 d2 d3 r4 show ?thesis by blast
qed

text \<open>
  Claim C7. \<^verbatim>\<open>Preprocess\<close> returns false with its own message, whatever the fuel (so without
  a call of the expander), when the input file cannot be opened, and the output file is
  left as it was; the same when the input opens and the output file cannot be opened for
  writing. When both open, the run is the run on the file system in which the output
  file has been emptied, whatever that file held: its earlier content is gone, also when
  it is the input file itself. What such a run returns is what the expander returns on
  that file system, and the output file holds what the expander wrote.
\<close>

theorem driver_open_failures:
  "(fs_open E input_file = None \<longrightarrow>
      Preprocess fuel E input_file output_file include_dirs w =
        Some (False, w\<lparr>console := console w @ err_input @ input_file @ [newline]\<rparr>))
   \<and> (fs_open E input_file \<noteq> None \<and> \<not> fs_can_write E output_file \<longrightarrow>
      Preprocess fuel E input_file output_file include_dirs w =
        Some (False, w\<lparr>console := console w @ err_output @ output_file @ [newline]\<rparr>))
   \<and> (fs_open E input_file \<noteq> None \<and> fs_can_write E output_file \<longrightarrow>
      Preprocess fuel E input_file output_file include_dirs w =
        Preprocess fuel (truncated E output_file) input_file output_file include_dirs
          (w\<lparr>out_file := Some []\<rparr>)
      \<and> (\<forall>ok w'. Preprocess fuel E input_file output_file include_dirs w = Some (ok, w') \<longrightarrow>
            (\<exists>st. ProcessInclude fuel (truncated E output_file) input_file include_dirs [] 0
                     \<lparr>out = [], cout = console w\<rparr> = Some (ok, st)
                 \<and> w' = \<lparr>console = cout st, out_file = Some (out st)\<rparr>)))"
proof (intro conjI impI allI)
  assume "fs_open E input_file = None"
  then show "Preprocess fuel E input_file output_file include_dirs w =
        Some (False, w\<lparr>console := console w @ err_input @ input_file @ [newline]\<rparr>)"
    by (simp add: Preprocess_def)
next
  assume "fs_open E input_file \<noteq> None \<and> \<not> fs_can_write E output_file"
  then show "Preprocess fuel E input_file output_file include_dirs w =
        Some (False, w\<lparr>console := console w @ err_output @ output_file @ [newline]\<rparr>)"
    by (auto simp: Preprocess_def)
next
  assume h: "fs_open E input_file \<noteq> None \<and> fs_can_write E output_file"
  then have "fs_open (truncated E output_file) input_file \<noteq> None"
    using fs_open_truncated_input by blast
  moreover have "fs_can_write (truncated E output_file) output_file = fs_can_write E output_file"
    by (simp add: truncated_def)
  ultimately show "Preprocess fuel E input_file output_file include_dirs w =
        Preprocess fuel (truncated E output_file) input_file output_file include_dirs
          (w\<lparr>out_file := Some []\<rparr>)"
    using h by (auto simp: Preprocess_def truncated_twice)
next
  fix ok w'
  assume h: "fs_open E input_file \<noteq> None \<and> fs_can_write E output_file"
    and r: "Preprocess fuel E input_file output_file include_dirs w = Some (ok, w')"
  then show "\<exists>st. ProcessInclude fuel (truncated E output_file) input_file include_dirs [] 0
                     \<lparr>out = [], cout = console w\<rparr> = Some (ok, st)
                 \<and> w' = \<lparr>console = cout st, out_file = Some (out st)\<rparr>"
    by (auto simp: Preprocess_def split: option.splits if_splits)
qed

theorem driver_open_failures_witness:
  "fs_open test_env ''sources/none.cpp'' = None
   \<and> Preprocess 0 test_env ''sources/none.cpp'' ''sources/a.in'' test_include_dirs
         \<lparr>console = [], out_file = Some ''old''\<rparr> =
       Some (False, \<lparr>console = err_input @ ''sources/none.cpp'' @ [newline], out_file = Some ''old''\<rparr>)
   \<and> fs_open test_env ''sources/a.cpp'' \<noteq> None \<and> \<not> fs_can_write test_env ''sources/dir1''
   \<and> Preprocess 0 test_env ''sources/a.cpp'' ''sources/dir1'' test_include_dirs
         \<lparr>console = [], out_file = None\<rparr> =
       Some (False, \<lparr>console = err_output @ ''sources/dir1'' @ [newline], out_file = None\<rparr>)
   \<and> fs_can_write test_env ''sources/a.in''
   \<and> Preprocess 4 test_env ''sources/a.cpp'' ''sources/a.in'' test_include_dirs
         \<lparr>console = [], out_file = Some ''old''\<rparr> =
       Preprocess 4 (truncated test_env ''sources/a.in'') ''sources/a.cpp'' ''sources/a.in'' test_include_dirs
         \<lparr>console = [], out_file = Some []\<rparr>
   \<and> Preprocess 4 test_env ''sources/a.cpp'' ''sources/a.in'' test_include_dirs
         \<lparr>console = [], out_file = Some ''old''\<rparr> =
       Some (False, \<lparr>console = ''unknown include file dummy.txt at file sources/a.cpp at line 8'' @ [newline],
                     out_file = Some test_out\<rparr>)
   \<and> (\<exists>st. ProcessInclude 4 (truncated test_env ''sources/a.in'') ''sources/a.cpp'' test_include_dirs [] 0
               \<lparr>out = [], cout = []\<rparr> = Some (False, st)
            \<and> \<lparr>console = ''unknown include file dummy.txt at file sources/a.cpp at line 8'' @ [newline],
                out_file = Some test_out\<rparr> = \<lparr>console = cout st, out_file = Some (out st)\<rparr>)
   \<and> fs_can_write test_env ''sources/a.cpp''
   \<and> Preprocess 4 test_env ''sources/a.cpp'' ''sources/a.cpp'' test_include_dirs
         \<lparr>console = [], out_file = None\<rparr> =
       Some (True, \<lparr>console = [], out_file = Some []\<rparr>)"
proof -
  let ?old = "\<lparr>console = [], out_file = Some ''old''\<rparr>"
  let ?res = "\<lparr>console = ''unknown include file dummy.txt at file sources/a.cpp at line 8'' @ [newline],
                     out_file = Some test_out\<rparr>"
  have h1: "fs_open test_env ''sources/none.cpp'' = None" by code_simp
  have h2: "fs_open test_env ''sources/a.cpp'' \<noteq> None" by code_simp
  have h3: "\<not> fs_can_write test_env ''sources/dir1''" by code_simp
  have h4: "fs_can_write test_env ''sources/a.in''" by code_simp
  have h5: "fs_can_write test_env ''sources/a.cpp''" by code_simp
  have a: "Preprocess 0 test_env ''sources/none.cpp'' ''sources/a.in'' test_include_dirs ?old =
       Some (False, \<lparr>console = err_input @ ''sources/none.cpp'' @ [newline], out_file = Some ''old''\<rparr>)"
    using driver_open_failures [where E = test_env and input_file = "''sources/none.cpp''" and fuel = 0
        and output_file = "''sources/a.in''" and include_dirs = test_include_dirs and w = ?old] h1
    by simp
  have b: "Preprocess 0 test_env ''sources/a.cpp'' ''sources/dir1'' test_include_dirs
         \<lparr>console = [], out_file = None\<rparr> =
       Some (False, \<lparr>console = err_output @ ''sources/dir1'' @ [newline], out_file = None\<rparr>)"
    using driver_open_failures [where E = test_env and input_file = "''sources/a.cpp''" and fuel = 0
        and output_file = "''sources/dir1''" and include_dirs = test_include_dirs
        and w = "\<lparr>console = [], out_file = None\<rparr>"] h2 h3
    by simp
  note t = driver_open_failures [where E = test_env and input_file = "''sources/a.cpp''" and fuel = 4
        and output_file = "''sources/a.in''" and include_dirs = test_include_dirs and w = ?old,
        THEN conjunct2, THEN conjunct2, THEN mp, OF conjI [OF h2 h4]]
  have c: "Preprocess 4 test_env ''sources/a.cpp'' ''sources/a.in'' test_include_dirs ?old =
       Preprocess 4 (truncated test_env ''sources/a.in'') ''sources/a.cpp'' ''sources/a.in'' test_include_dirs
         \<lparr>console = [], out_file = Some []\<rparr>"
    using t by simp
  have e: "Preprocess 4 test_env ''sources/a.cpp'' ''sources/a.in'' test_include_dirs ?old = Some (False, ?res)"
    by code_simp
  have d: "\<exists>st. ProcessInclude 4 (truncated test_env ''sources/a.in'') ''sources/a.cpp'' test_include_dirs [] 0
               \<lparr>out = [], cout = []\<rparr> = Some (False, st)
            \<and> ?res = \<lparr>console = cout st, out_file = Some (out st)\<rparr>"
    using t [THEN conjunct2, THEN spec, THEN spec, THEN mp, OF e] by simp
  have f: "Preprocess 4 test_env ''sources/a.cpp'' ''sources/a.cpp'' test_include_dirs
         \<lparr>console = [], out_file = None\<rparr> =
       Some (True, \<lparr>console = [], out_file = Some []\<rparr>)"
    by code_simp
  from h1 h2 h3 h4 h5 a b c e d f show ?thesis by blast
qed

text \<open>
  Claim C8. \<^verbatim>\<open>ProcessInclude\<close> on a file that cannot be opened returns false; it writes
  \<^verbatim>\<open>unknown include file <basename> at file <referencing file> at line <referencing line>\<close>
  to the standard output when the referencing file is not empty, and nothing when it is
  empty (the call for the top-level file).
\<close>

theorem unopenable_file_diagnostic:
  assumes "fs_open E file = None"
  shows "ProcessInclude (Suc fuel) E file include_dirs referencing_file referencing_line st =
           Some (False,
             if referencing_file = [] then st
             else st\<lparr>cout := cout st @
                    ''unknown include file '' @ filename E file @ '' at file '' @ referencing_file @
                    '' at line '' @ show_int referencing_line @ [newline]\<rparr>)"
  using assms by (simp add: diagnostic_def)

theorem unopenable_file_diagnostic_witness:
  "fs_exists chain_env ''locked.h'' \<and> fs_open chain_env ''locked.h'' = None
   \<and> ProcessInclude (Suc 0) chain_env ''locked.h'' [''inc''] ''user.cpp'' 2 no_output =
       Some (False, \<lparr>out = [], cout = ''unknown include file locked.h at file user.cpp at line 2'' @ [newline]\<rparr>)
   \<and> fs_open chain_env ''absent.cpp'' = None
   \<and> ProcessInclude (Suc 0) chain_env ''absent.cpp'' [''inc''] [] 0 no_output = Some (False, no_output)"
proof -
  have x: "fs_exists chain_env ''locked.h''" by code_simp
  have h: "fs_open chain_env ''locked.h'' = None" by code_simp
  have f: "filename chain_env ''locked.h'' = ''locked.h''" by code_simp
  have n: "show_int 2 = ''2''" by code_simp
  have a: "ProcessInclude (Suc 0) chain_env ''locked.h'' [''inc''] ''user.cpp'' 2 no_output =
       Some (False, \<lparr>out = [], cout = ''unknown include file locked.h at file user.cpp at line 2'' @ [newline]\<rparr>)"
    using unopenable_file_diagnostic [OF h, of 0 "[''inc'']" "''user.cpp''" 2 no_output]
    by (simp add: f n no_output_def)
  have g: "fs_open chain_env ''absent.cpp'' = None" by code_simp
  have b: "ProcessInclude (Suc 0) chain_env ''absent.cpp'' [''inc''] [] 0 no_output = Some (False, no_output)"
    using unopenable_file_diagnostic [OF g, of 0 "[''inc'']" "[]" 0 no_output]
    by simp
  from x h a g b show ?thesis by blast
qed

text \<open>
  Claim C9. A file without directive lines is copied line for line, each line followed by
  one line feed, and the run succeeds. The program breaks this, by the defect of claim C1.
  The file \<^verbatim>\<open>a.cpp\<close> below has three lines, all plain text for the specification's
  matcher; the second is a comment that quotes a directive. The program takes the comment
  for a local directive: the run fails at line 2 with a diagnostic, and the output file
  holds the first line only.
\<close>

theorem commented_directive_breaks_identity:
  \<open>fs_open commented_env ''a.cpp'' =
     Some (''int x;'' @ [newline] @ ''// #include "x.h"'' @ [newline] @ ''int y;'' @ [newline])
   \<and> list_all (\<lambda>l. spec_classify l = PlainText l)
        (getlines (''int x;'' @ [newline] @ ''// #include "x.h"'' @ [newline] @ ''int y;'' @ [newline]))
   \<and> fs_can_write commented_env ''a.out''
   \<and> Preprocess 1 commented_env ''a.cpp'' ''a.out'' [] \<lparr>console = [], out_file = None\<rparr> =
       Some (False, \<lparr>console = ''unknown include file x.h at file a.cpp at line 2'' @ [newline],
                     out_file = Some (''int x;'' @ [newline])\<rparr>)\<close>
  by code_simp

text \<open>
  Claim C10. A file that can be read and is empty makes \<^verbatim>\<open>ProcessInclude\<close> return true with
  both streams unchanged; a directive that resolves to such a file contributes nothing,
  and the loop goes on with the next line of the including file.
\<close>

theorem empty_file_expands_to_nothing:
  assumes "fs_open E file = Some []"
  shows "ProcessInclude (Suc fuel) E file include_dirs source_file source_line st = Some (True, st)
       \<and> (resolve E current_file include_dirs (classify line) = Some file \<longrightarrow>
            process_lines (Suc fuel) E current_file include_dirs (line # rest) line_number st =
              process_lines (Suc fuel) E current_file include_dirs rest (line_number + 1) st)"
proof -
  have a: "ProcessInclude (Suc fuel) E file include_dirs src ln st = Some (True, st)" for src ln
    using assms by simp
  show ?thesis
    using a by (auto simp: process_lines_directive simp del: ProcessInclude.simps process_lines.simps)
qed

theorem empty_file_expands_to_nothing_witness:
  \<open>fs_open (mk_env [(''a.cpp'', ''#include "e.h"'' @ [newline] @ ''x''), (''e.h'', [])] []) ''e.h'' = Some []
   \<and> resolve (mk_env [(''a.cpp'', ''#include "e.h"'' @ [newline] @ ''x''), (''e.h'', [])] []) ''a.cpp'' []
        (classify ''#include "e.h"'') = Some ''e.h''
   \<and> ProcessInclude (Suc 0) (mk_env [(''a.cpp'', ''#include "e.h"'' @ [newline] @ ''x''), (''e.h'', [])] [])
        ''e.h'' [] ''a.cpp'' 1 no_output = Some (True, no_output)
   \<and> process_lines (Suc 0) (mk_env [(''a.cpp'', ''#include "e.h"'' @ [newline] @ ''x''), (''e.h'', [])] [])
        ''a.cpp'' [] [''#include "e.h"'', ''x''] 0 no_output =
       Some (True, \<lparr>out = ''x'' @ [newline], cout = []\<rparr>)\<close>
proof -
  let ?E = \<open>mk_env [(''a.cpp'', ''#include "e.h"'' @ [newline] @ ''x''), (''e.h'', [])] []\<close>
  have h1: "fs_open ?E ''e.h'' = Some []" by code_simp
  have h2: \<open>resolve ?E ''a.cpp'' [] (classify ''#include "e.h"'') = Some ''e.h''\<close> by code_simp
  have r: \<open>process_lines (Suc 0) ?E ''a.cpp'' [] [''x''] (0 + 1) no_output = Some (True, \<lparr>out = ''x'' @ [newline], cout = []\<rparr>)\<close>
    by code_simp
  note t = empty_file_expands_to_nothing [OF h1, of 0 "[]" "''a.cpp''" 1 no_output "''a.cpp''"
      \<open>''#include "e.h"''\<close> "[''x'']" 0]
  from t h2 r show ?thesis using h1 by simp
qed

end
